theory Spec2Isabelle
  imports Complex_Main "HOL-Library.Multiset" "HOL-Library.List_Lexorder"
begin

section \<open>Values of the host language\<close>

text \<open>
  A JavaScript string is a sequence of UTF-16 code units; a code unit is modelled by its
  number. Instants (\<open>Date.now()\<close>, \<open>Date.getTime()\<close>) are integers, in milliseconds.
  \<open>js\<close> writes an ASCII literal as such a string.
\<close>

type_synonym jsstring = "nat list"

definition js :: "string \<Rightarrow> jsstring" where
  "js s = map of_char s"

text \<open>
  The characters the regular expression class \<open>\s\<close> matches and \<open>String.prototype.trim\<close>
  strips: ECMAScript's WhiteSpace and LineTerminator code points.
\<close>

definition isWhiteSpace :: "nat \<Rightarrow> bool" where
  "isWhiteSpace c \<longleftrightarrow>
     c \<in> {9, 10, 11, 12, 13, 32, 160, 5760, 8232, 8233, 8239, 8287, 12288, 65279}
     \<or> (8192 \<le> c \<and> c \<le> 8202)"

section \<open>Metadata sampler (index.ts: startMetadataPoller)\<close>

text \<open>
  \<open>MetadataSample\<close>: \<open>artist\<close> and \<open>title\<close> are \<open>string | null\<close>. The field \<open>wallClock\<close> is
  the ISO rendering of \<open>timestamp\<close> and is read nowhere; it is left out.
\<close>

record MetadataSample =
  timestamp :: int
  artist :: "jsstring option"
  title :: "jsstring option"

text \<open>\<open>!s.artist\<close>: null and the empty string are falsy.\<close>

definition noArtist :: "MetadataSample \<Rightarrow> bool" where
  "noArtist s \<longleftrightarrow> (case artist s of None \<Rightarrow> True | Some a \<Rightarrow> a = [])"

text \<open>\<open>data.artist || null\<close> of fetchMetadata: a falsy field becomes null.\<close>

definition orNull :: "jsstring option \<Rightarrow> jsstring option" where
  "orNull v = (case v of None \<Rightarrow> None | Some a \<Rightarrow> (if a = [] then None else Some a))"

text \<open>
  The loop \<open>while (buffer.length > 0 && buffer[0].timestamp < cutoff) buffer.shift()\<close>.
\<close>

fun prune :: "int \<Rightarrow> MetadataSample list \<Rightarrow> MetadataSample list" where
  "prune cutoff [] = []"
| "prune cutoff (s # ss) = (if timestamp s < cutoff then prune cutoff ss else s # ss)"

text \<open>
  One tick of the poller, after \<open>fetchMetadata\<close> has answered \<open>(a, t)\<close> (a failed fetch
  answers \<open>(None, None)\<close>) and \<open>Date.now()\<close> has returned \<open>now\<close>: push, then prune.
\<close>

definition pollerTick ::
  "int \<Rightarrow> jsstring option \<Rightarrow> jsstring option \<Rightarrow> MetadataSample list \<Rightarrow> MetadataSample list" where
  "pollerTick now a t metadataBuffer =
     (let pushed = metadataBuffer @ [\<lparr>timestamp = now, artist = orNull a, title = orNull t\<rparr>];
          cutoff = now - 15 * 60 * 1000
      in prune cutoff pushed)"

section \<open>Chunk classifier (index.ts: chunkHasSpeech, getChunkSpeechRatio)\<close>

definition inRange :: "int \<Rightarrow> int \<Rightarrow> MetadataSample \<Rightarrow> bool" where
  "inRange startMs endMs s \<longleftrightarrow> timestamp s \<ge> startMs \<and> timestamp s \<le> endMs"

definition chunkHasSpeech :: "MetadataSample list \<Rightarrow> int \<Rightarrow> int \<Rightarrow> bool" where
  "chunkHasSpeech metadataBuffer startMs endMs =
     (let samples = filter (inRange startMs endMs) metadataBuffer
      in list_ex noArtist samples)"

text \<open>
  The quotient of the two lengths is a JavaScript number; it is modelled by the exact
  quotient. Both lengths are far below \<open>2^53\<close>, and the correctly rounded quotient of two
  such integers \<open>k \<le> n\<close> lies in \<open>[0, 1]\<close> and is positive exactly when \<open>k\<close> is.
\<close>

definition getChunkSpeechRatio :: "MetadataSample list \<Rightarrow> int \<Rightarrow> int \<Rightarrow> real" where
  "getChunkSpeechRatio metadataBuffer startMs endMs =
     (let samples = filter (inRange startMs endMs) metadataBuffer
      in if length samples = 0 then 0
         else (let speechSamples = filter noArtist samples
               in real (length speechSamples) / real (length samples)))"

section \<open>Transcription gateway (transcribe.ts)\<close>

subsection \<open>Strings and arrays of the host\<close>

type_synonym path = jsstring

text \<open>\<open>Array.prototype.join(sep)\<close> on an array of strings.\<close>

fun joinWith :: "jsstring \<Rightarrow> jsstring list \<Rightarrow> jsstring" where
  "joinWith sep [] = []"
| "joinWith sep [x] = x"
| "joinWith sep (x # y # ys) = x @ sep @ joinWith sep (y # ys)"

text \<open>
  \<open>s.split(/\s+/)\<close>: the pieces between the maximal runs of white space. A run at the
  very start or end of the string leaves an empty piece there, and the empty string
  splits into one empty piece.
\<close>

function splitFrom :: "jsstring \<Rightarrow> jsstring \<Rightarrow> jsstring list" where
  "splitFrom piece [] = [piece]"
| "splitFrom piece (c # cs) =
     (if isWhiteSpace c then piece # splitFrom [] (dropWhile isWhiteSpace cs)
      else splitFrom (piece @ [c]) cs)"
  by pat_completeness auto
termination
  by (relation "measure (\<lambda>(piece, s). length s)")
     (auto simp: le_imp_less_Suc length_dropWhile_le)

definition splitWhiteSpace :: "jsstring \<Rightarrow> jsstring list" where
  "splitWhiteSpace s = splitFrom [] s"

text \<open>
  \<open>xs.slice(0, e)\<close> for an integer \<open>e\<close>: a negative end counts from the end of the array.
\<close>

definition slice0 :: "int \<Rightarrow> 'a list \<Rightarrow> 'a list" where
  "slice0 e xs =
     (let len = int (length xs);
          final = (if e < 0 then max (len + e) 0 else min e len)
      in take (nat final) xs)"

text \<open>\<open>String.prototype.trim\<close>.\<close>

definition trim :: "jsstring \<Rightarrow> jsstring" where
  "trim s = rev (dropWhile isWhiteSpace (rev (dropWhile isWhiteSpace s)))"

text \<open>
  \<open>Math.round\<close> rounds to the nearest integer, a tie towards plus infinity. Seconds are
  JavaScript numbers, modelled by real numbers: \<open>Math.round(x * 1000)\<close> is taken on the
  exact product.
\<close>

definition mathRound :: "real \<Rightarrow> int" where
  "mathRound x = \<lfloor>x + 1 / 2\<rfloor>"

definition toMs :: "real \<Rightarrow> int" where
  "toMs secs = mathRound (secs * 1000)"

subsection \<open>Data\<close>

text \<open>
  \<open>TranscriptSegment {start, end, text}\<close>, in milliseconds, and the fields of the
  service's answer that the code reads: \<open>GroqSegment {start, end, text}\<close>, in seconds, and
  \<open>GroqTranscriptionResult {duration, segments}\<close>. Field names carry a prefix, since \<open>end\<close>
  and \<open>text\<close> are reserved words here.
\<close>

record TranscriptSegment =
  seg_start :: int
  seg_end :: int
  seg_text :: jsstring

record GroqSegment =
  g_start :: real
  g_end :: real
  g_text :: jsstring

record GroqTranscriptionResult =
  r_duration :: real
  r_segments :: "GroqSegment list"

datatype error =
    StatFailed | MkdtempFailed | SplitFailed | GroqFailed
  | NoInputFiles | CopyFailed | WriteFailed | FfmpegFailed | MkdirFailed | ReaddirFailed
  | TypeError

text \<open>
  The answers of the host to the calls of transcribe.ts, fixed for the call under
  consideration: \<open>fs.stat\<close>, \<open>fs.mkdtemp\<close>, the ffmpeg run of \<open>splitAudioFile\<close> with the
  sorted listing of its output, and the request of \<open>transcribeChunk\<close>. \<open>Inl\<close> is a
  rejected promise.
\<close>

record transcriber =
  getFileSize :: "path \<Rightarrow> error + nat"
  mkdtemp :: "path \<Rightarrow> error + path"
  splitAudioFile :: "path \<Rightarrow> path \<Rightarrow> error + path list"
  transcribeChunk :: "path \<Rightarrow> error + GroqTranscriptionResult"

definition MAX_FILE_SIZE :: nat where
  "MAX_FILE_SIZE = 20 * 1024 * 1024"

text \<open>
  The nominal length of a sub-segment, handed to ffmpeg as \<open>-segment_time\<close>. No time
  offset is computed from it.
\<close>

definition SEGMENT_DURATION_SECS :: nat where
  "SEGMENT_DURATION_SECS = 480"

subsection \<open>transcribeAudio\<close>

text \<open>The object built for a segment of a small file.\<close>

definition directSegment :: "GroqSegment \<Rightarrow> TranscriptSegment" where
  "directSegment seg =
     \<lparr>seg_start = mathRound (g_start seg * 1000),
      seg_end = mathRound (g_end seg * 1000),
      seg_text = trim (g_text seg)\<rparr>"

text \<open>The object pushed for a segment of a sub-segment, at the running offset.\<close>

definition offsetSegment :: "int \<Rightarrow> GroqSegment \<Rightarrow> TranscriptSegment" where
  "offsetSegment timeOffsetMs seg =
     \<lparr>seg_start = mathRound (g_start seg * 1000) + timeOffsetMs,
      seg_end = mathRound (g_end seg * 1000) + timeOffsetMs,
      seg_text = trim (g_text seg)\<rparr>"

text \<open>
  The loop over \<open>chunkFiles\<close>, with its two variables \<open>allSegments\<close> and \<open>timeOffsetMs\<close>.
  A rejected \<open>getFileSize\<close> or \<open>transcribeChunk\<close> leaves the loop with the error.
\<close>

fun transcribeChunks ::
  "transcriber \<Rightarrow> path list \<Rightarrow> TranscriptSegment list \<Rightarrow> int \<Rightarrow> error + TranscriptSegment list" where
  "transcribeChunks h [] allSegments timeOffsetMs = Inr allSegments"
| "transcribeChunks h (chunkFile # rest) allSegments timeOffsetMs =
     (case getFileSize h chunkFile of
        Inl e \<Rightarrow> Inl e
      | Inr chunkSize \<Rightarrow>
          (case transcribeChunk h chunkFile of
             Inl e \<Rightarrow> Inl e
           | Inr result \<Rightarrow>
               transcribeChunks h rest
                 (allSegments @ map (offsetSegment timeOffsetMs) (r_segments result))
                 (timeOffsetMs + mathRound (r_duration result * 1000))))"

text \<open>
  \<open>path.dirname\<close> is not modelled: \<open>mkdtemp\<close> is asked with the input path itself. The
  temporary directory is removed on every way out of the split branch and is not part
  of the result.
\<close>

definition transcribeAudio :: "transcriber \<Rightarrow> path \<Rightarrow> error + TranscriptSegment list" where
  "transcribeAudio h inputPath =
     (case getFileSize h inputPath of
        Inl e \<Rightarrow> Inl e
      | Inr fileSize \<Rightarrow>
          if fileSize \<le> MAX_FILE_SIZE then
            (case transcribeChunk h inputPath of
               Inl e \<Rightarrow> Inl e
             | Inr result \<Rightarrow> Inr (map directSegment (r_segments result)))
          else
            (case mkdtemp h inputPath of
               Inl e \<Rightarrow> Inl e
             | Inr tempDir \<Rightarrow>
                 (case splitAudioFile h inputPath tempDir of
                    Inl e \<Rightarrow> Inl e
                  | Inr chunkFiles \<Rightarrow> transcribeChunks h chunkFiles [] 0)))"

subsection \<open>generateTitle\<close>

definition generateTitle :: "TranscriptSegment list \<Rightarrow> int \<Rightarrow> jsstring" where
  "generateTitle segs maxWords =
     (let fullText = joinWith (js '' '') (map seg_text segs);
          words = filter (\<lambda>w. length w > 0) (splitWhiteSpace fullText);
          title = joinWith (js '' '') (slice0 maxWords words)
      in title @ (if int (length words) > maxWords then js ''...'' else []))"

text \<open>
  The words of a text, as the specification speaks of them: the maximal runs of
  characters that are not white space, from left to right.
\<close>

function wordsOf :: "jsstring \<Rightarrow> jsstring list" where
  "wordsOf s =
     (case dropWhile isWhiteSpace s of
        [] \<Rightarrow> []
      | c # cs \<Rightarrow>
          takeWhile (\<lambda>x. \<not> isWhiteSpace x) (c # cs)
            # wordsOf (dropWhile (\<lambda>x. \<not> isWhiteSpace x) cs))"
  by pat_completeness auto
termination
proof (relation "measure length")
  show "wf (measure length)" by simp
next
  fix s :: jsstring and c cs
  assume "dropWhile isWhiteSpace s = c # cs"
  then have "length (c # cs) \<le> length s"
    by (metis length_dropWhile_le)
  moreover have "length (dropWhile (\<lambda>x. \<not> isWhiteSpace x) cs) \<le> length cs"
    by (rule length_dropWhile_le)
  ultimately show "(dropWhile (\<lambda>x. \<not> isWhiteSpace x) cs, s) \<in> measure length"
    by simp
qed

subsection \<open>Sample transcripts\<close>

text \<open>A transcript of fifteen words in three segments, and one of five words.\<close>

definition fifteenWords :: "TranscriptSegment list" where
  "fifteenWords =
     [\<lparr>seg_start = 0, seg_end = 4000, seg_text = js ''eins zwei  drei vier''\<rparr>,
      \<lparr>seg_start = 4000, seg_end = 9000,
         seg_text = js ''fuenf sechs sieben acht neun zehn elf''\<rparr>,
      \<lparr>seg_start = 9000, seg_end = 12000,
         seg_text = js ''zwoelf dreizehn vierzehn fuenfzehn''\<rparr>]"

definition fiveWords :: "TranscriptSegment list" where
  "fiveWords =
     [\<lparr>seg_start = 0, seg_end = 2000, seg_text = js ''Guten Abend''\<rparr>,
      \<lparr>seg_start = 2000, seg_end = 5000, seg_text = js ''liebe Hoerer hier''\<rparr>]"

subsection \<open>The transcript the specification describes\<close>

text \<open>
  A segment converted from seconds to rounded milliseconds; a segment moved by an
  offset; the offset of sub-segment \<open>i\<close>, the sum of the reported durations, in rounded
  milliseconds, of the sub-segments before it; and the transcripts of the sub-segments,
  each moved by its offset, one after the other in split order.
\<close>

definition inMs :: "GroqSegment \<Rightarrow> TranscriptSegment" where
  "inMs seg =
     \<lparr>seg_start = toMs (g_start seg), seg_end = toMs (g_end seg), seg_text = trim (g_text seg)\<rparr>"

definition shiftBy :: "int \<Rightarrow> TranscriptSegment \<Rightarrow> TranscriptSegment" where
  "shiftBy d s = s\<lparr>seg_start := seg_start s + d, seg_end := seg_end s + d\<rparr>"

definition offsetOf :: "GroqTranscriptionResult list \<Rightarrow> nat \<Rightarrow> int" where
  "offsetOf results i = sum_list (map (\<lambda>r. toMs (r_duration r)) (take i results))"

definition offsetTranscript :: "GroqTranscriptionResult list \<Rightarrow> TranscriptSegment list" where
  "offsetTranscript results =
     concat (map (\<lambda>i. map (\<lambda>seg. shiftBy (offsetOf results i) (inMs seg))
                          (r_segments (results ! i)))
               [0..<length results])"

text \<open>The host answers both calls the loop makes for a sub-segment file.\<close>

definition answered :: "transcriber \<Rightarrow> path \<Rightarrow> GroqTranscriptionResult \<Rightarrow> bool" where
  "answered h f r \<longleftrightarrow> (\<exists>n. getFileSize h f = Inr n) \<and> transcribeChunk h f = Inr r"

subsection \<open>A sample host\<close>

text \<open>
  A file of 30000000 bytes that splits into two sub-segments; the first reports a
  duration of 479.75 s, not the nominal 480 s. Every other file is small.
\<close>

definition firstAnswer :: GroqTranscriptionResult where
  "firstAnswer =
     \<lparr>r_duration = 1919 / 4,
      r_segments =
        [\<lparr>g_start = 0, g_end = 5 / 2, g_text = js '' Guten Abend ''\<rparr>,
         \<lparr>g_start = 5 / 2, g_end = 1919 / 4, g_text = js ''liebe Hoerer''\<rparr>]\<rparr>"

definition secondAnswer :: GroqTranscriptionResult where
  "secondAnswer =
     \<lparr>r_duration = 100,
      r_segments = [\<lparr>g_start = 1, g_end = 65 / 32, g_text = js ''hier''\<rparr>]\<rparr>"

definition sampleHost :: transcriber where
  "sampleHost =
     \<lparr>getFileSize = (\<lambda>p. if p = js ''big.mp3'' then Inr 30000000 else Inr 1000),
      mkdtemp = (\<lambda>p. Inr (js ''split_x'')),
      splitAudioFile = (\<lambda>p d. Inr [js ''s0'', js ''s1'']),
      transcribeChunk = (\<lambda>p. if p = js ''s0'' then Inr firstAnswer else Inr secondAnswer)\<rparr>"

section \<open>Index builder (index.ts: updateLiveIndex)\<close>

text \<open>\<open>LiveBroadcast\<close>; the fields carry the prefix \<open>b_\<close>.\<close>

record LiveBroadcast =
  b_id :: jsstring
  b_title :: jsstring
  b_timestamp :: jsstring
  b_duration :: int
  b_audioFile :: path
  b_transcript :: "TranscriptSegment list"

text \<open>
  What \<open>JSON.parse\<close> returns for a \<open>broadcast.json\<close>, as far as the rebuild tells values
  apart. \<open>Record\<close> is an object whose \<open>timestamp\<close> is a string. \<open>JsonNull\<close> is \<open>null\<close>. \<open>Untimed\<close>
  is every other value (an object with no \<open>timestamp\<close> or with one that is not a string,
  an array, a number, a string, a boolean); it carries the string that \<open>ToString\<close> makes
  of its \<open>timestamp\<close>, which is \<open>undefined\<close> when it has none.
\<close>

datatype jsonValue =
    Record LiveBroadcast
  | JsonNull
  | Untimed jsstring

text \<open>
  The comparator \<open>(a, b) => b.timestamp.localeCompare(a.timestamp)\<close>.
  \<open>String.prototype.localeCompare\<close> is the collation of the host and is a parameter: it
  answers a negative number, zero or a positive number. Reading \<open>timestamp\<close> of \<open>null\<close>
  throws a TypeError, for \<open>a\<close> as for \<open>b\<close>. When the \<open>timestamp\<close> of \<open>b\<close> is not a string, the
  call of its \<open>localeCompare\<close> throws a TypeError. When the \<open>timestamp\<close> of \<open>a\<close> is not a
  string, it is the argument of the call and is converted by \<open>ToString\<close>.
\<close>

fun timestampCompare ::
  "(jsstring \<Rightarrow> jsstring \<Rightarrow> int) \<Rightarrow> jsonValue \<Rightarrow> jsonValue \<Rightarrow> error + int" where
  "timestampCompare localeCompare a (Record rb) =
     (case a of
        Record ra \<Rightarrow> Inr (localeCompare (b_timestamp rb) (b_timestamp ra))
      | JsonNull \<Rightarrow> Inl TypeError
      | Untimed s \<Rightarrow> Inr (localeCompare (b_timestamp rb) s))"
| "timestampCompare localeCompare a JsonNull = Inl TypeError"
| "timestampCompare localeCompare a (Untimed s) = Inl TypeError"

text \<open>
  \<open>Array.prototype.sort(cmp)\<close> makes a sequence of calls of \<open>cmp\<close> that the implementation
  chooses, and the exception of a call is the exception of the sort. When no call
  throws and \<open>cmp\<close> orders the elements totally up to ties, the result is the one stable
  arrangement. The model inserts the elements from the right, each before the first
  element it does not follow, which is one such sequence. On an array of two or more
  elements every sequence calls \<open>cmp\<close> on each element at least once; so where an element
  makes \<open>cmp\<close> throw in either position, as \<open>null\<close> does here, the sort throws whatever
  the sequence. Where an element makes \<open>cmp\<close> throw in one position only, whether the sort
  throws depends on the sequence.
\<close>

fun insertBy :: "('a \<Rightarrow> 'a \<Rightarrow> error + int) \<Rightarrow> 'a \<Rightarrow> 'a list \<Rightarrow> error + 'a list" where
  "insertBy cmp a [] = Inr [a]"
| "insertBy cmp a (b # bs) =
     (case cmp a b of
        Inl e \<Rightarrow> Inl e
      | Inr order \<Rightarrow>
          if order \<le> 0 then Inr (a # b # bs)
          else (case insertBy cmp a bs of
                  Inl e \<Rightarrow> Inl e
                | Inr inserted \<Rightarrow> Inr (b # inserted)))"

fun sortBy :: "('a \<Rightarrow> 'a \<Rightarrow> error + int) \<Rightarrow> 'a list \<Rightarrow> error + 'a list" where
  "sortBy cmp [] = Inr []"
| "sortBy cmp (a # rest) =
     (case sortBy cmp rest of
        Inl e \<Rightarrow> Inl e
      | Inr sorted' \<Rightarrow> insertBy cmp a sorted')"

text \<open>
  An entry of the live directory as the loop sees it: its name, whether it is a
  directory, and its \<open>broadcast.json\<close>: missing (\<open>existsSync\<close> is false), unparsable
  (\<open>readFile\<close> or \<open>JSON.parse\<close> throws, caught by the empty \<open>catch\<close>), or parsed to a
  value, which the loop pushes whatever it is.
\<close>

datatype jsonFile = Missing | Unparsable | Parsed jsonValue

record entry =
  name :: jsstring
  isDirectory :: bool
  broadcastJson :: jsonFile

fun readBroadcasts :: "entry list \<Rightarrow> jsonValue list \<Rightarrow> jsonValue list" where
  "readBroadcasts [] broadcasts = broadcasts"
| "readBroadcasts (e # es) broadcasts =
     (if \<not> isDirectory e then readBroadcasts es broadcasts
      else (case broadcastJson e of
              Missing \<Rightarrow> readBroadcasts es broadcasts
            | Unparsable \<Rightarrow> readBroadcasts es broadcasts
            | Parsed broadcast \<Rightarrow> readBroadcasts es (broadcasts @ [broadcast])))"

text \<open>
  \<open>updateLiveIndex\<close>, given the collation, the answer of \<open>fs.readdir\<close> and whether the
  \<open>fs.writeFile\<close> of \<open>index.json\<close> succeeds. The sort stands after the loop and outside its
  \<open>try\<close>: an exception of the comparator rejects the promise before anything is
  written. The result is the manifest written, or the error the promise is rejected
  with.
\<close>

definition updateLiveIndex ::
  "(jsstring \<Rightarrow> jsstring \<Rightarrow> int) \<Rightarrow> error + entry list \<Rightarrow> bool \<Rightarrow> error + jsonValue list" where
  "updateLiveIndex localeCompare readdir writeOk =
     (case readdir of
        Inl e \<Rightarrow> Inl e
      | Inr entries \<Rightarrow>
          (let broadcasts = readBroadcasts entries []
           in case sortBy (timestampCompare localeCompare) broadcasts of
                Inl e \<Rightarrow> Inl e
              | Inr sorted' \<Rightarrow> if writeOk then Inr sorted' else Inl WriteFailed))"

text \<open>
  The values a directory's parsable files hold, in the order of the listing, and the
  records among them.
\<close>

definition parsedValues :: "entry list \<Rightarrow> jsonValue list" where
  "parsedValues entries =
     concat (map (\<lambda>e. case broadcastJson e of
                         Parsed v \<Rightarrow> (if isDirectory e then [v] else [])
                       | _ \<Rightarrow> [])
               entries)"

definition validRecords :: "entry list \<Rightarrow> LiveBroadcast list" where
  "validRecords entries =
     concat (map (\<lambda>v. case v of Record b \<Rightarrow> [b] | _ \<Rightarrow> []) (parsedValues entries))"

text \<open>
  A collation decides any two strings, one way or the other or as a tie, and is
  transitive.
\<close>

definition consistent :: "(jsstring \<Rightarrow> jsstring \<Rightarrow> int) \<Rightarrow> bool" where
  "consistent localeCompare \<longleftrightarrow>
     (\<forall>x y. localeCompare x y \<le> 0 \<or> localeCompare y x \<le> 0)
     \<and> (\<forall>x y z. localeCompare x y \<le> 0 \<and> localeCompare y z \<le> 0 \<longrightarrow> localeCompare x z \<le> 0)"

text \<open>
  The comparison by code units, a collation for the samples: on the timestamps that
  \<open>toISOString\<close> writes, which have one length and differ in digits only, every collation
  decides as it does.
\<close>

fun codeUnitCompare :: "jsstring \<Rightarrow> jsstring \<Rightarrow> int" where
  "codeUnitCompare [] [] = 0"
| "codeUnitCompare [] (y # ys) = -1"
| "codeUnitCompare (x # xs) [] = 1"
| "codeUnitCompare (x # xs) (y # ys) =
     (if x < y then -1 else if y < x then 1 else codeUnitCompare xs ys)"

subsection \<open>Sample directories\<close>

definition morningShow :: LiveBroadcast where
  "morningShow =
     \<lparr>b_id = js ''2024-05-01T06-00-00-000Z'', b_title = js ''Guten Morgen'',
      b_timestamp = js ''2024-05-01T06:00:00.000Z'', b_duration = 240000,
      b_audioFile = js ''live/2024-05-01T06-00-00-000Z/audio.mp3'', b_transcript = []\<rparr>"

definition eveningShow :: LiveBroadcast where
  "eveningShow =
     \<lparr>b_id = js ''2024-05-01T18-30-00-000Z'', b_title = js ''Guten Abend'',
      b_timestamp = js ''2024-05-01T18:30:00.000Z'', b_duration = 120000,
      b_audioFile = js ''live/2024-05-01T18-30-00-000Z/audio.mp3'', b_transcript = []\<rparr>"

text \<open>
  Two valid records, between them one whose file does not parse, and the manifest file
  itself.
\<close>

definition sampleDirectory :: "entry list" where
  "sampleDirectory =
     [\<lparr>name = js ''2024-05-01T06-00-00-000Z'', isDirectory = True,
         broadcastJson = Parsed (Record morningShow)\<rparr>,
      \<lparr>name = js ''2024-05-01T12-00-00-000Z'', isDirectory = True,
         broadcastJson = Unparsable\<rparr>,
      \<lparr>name = js ''2024-05-01T18-30-00-000Z'', isDirectory = True,
         broadcastJson = Parsed (Record eveningShow)\<rparr>,
      \<lparr>name = js ''index.json'', isDirectory = False, broadcastJson = Missing\<rparr>]"


section \<open>Merge operation (transcribe.ts: mergeAudioFiles; index.ts: mergeBroadcast)\<close>

text \<open>\<open>ChunkInfo\<close>; its field \<open>file\<close> is written \<open>c_file\<close>, \<open>file\<close> being a reserved word here.\<close>

record ChunkInfo =
  c_file :: path
  startTime :: int
  duration :: int
  hasSpeech :: bool

text \<open>
  The calls a merge makes on the host, in the order it makes them. \<open>WriteList\<close> writes the
  list file of the concatenation, with the input paths it names; \<open>FfmpegConcat\<close> is the
  ffmpeg run over these inputs; \<open>UpdateLiveIndex\<close> is the call of the index builder.
\<close>

datatype call =
    Mkdir path
  | CopyFile path path
  | WriteList path "path list"
  | FfmpegConcat "path list" path
  | Unlink path
  | TranscribeAudio path
  | WriteBroadcast path LiveBroadcast
  | UpdateLiveIndex path

text \<open>
  The answers of the host to a merge: the transcription gateway, \<open>Date.toISOString\<close>,
  whether \<open>fs.mkdir\<close>, \<open>fs.copyFile\<close> and \<open>fs.writeFile\<close> succeed, and the ffmpeg run of the
  concatenation: \<open>None\<close> is its \<open>error\<close> event, \<open>Some code\<close> its exit code. A failed
  \<open>fs.unlink\<close> is swallowed by the source and needs no answer.
\<close>

record host =
  gateway :: transcriber
  toISOString :: "int \<Rightarrow> jsstring"
  mkdirOk :: "path \<Rightarrow> bool"
  copyFileOk :: "path \<Rightarrow> path \<Rightarrow> bool"
  writeFileOk :: "path \<Rightarrow> bool"
  ffmpegConcat :: "path list \<Rightarrow> path \<Rightarrow> nat option"

text \<open>\<open>path.join\<close> of two segments; normalisation is not modelled.\<close>

definition pathJoin :: "path \<Rightarrow> path \<Rightarrow> path" where
  "pathJoin a b = a @ js ''/'' @ b"

text \<open>\<open>s.replace(/[:.]/g, "-")\<close>.\<close>

definition replaceColonDot :: "jsstring \<Rightarrow> jsstring" where
  "replaceColonDot s = map (\<lambda>c. if c = 58 \<or> c = 46 then 45 else c) s"

text \<open>\<open>mergeAudioFiles\<close>: the calls made, and how the promise settles.\<close>

definition mergeAudioFiles :: "host \<Rightarrow> path list \<Rightarrow> path \<Rightarrow> call list \<times> (error + unit)" where
  "mergeAudioFiles h inputPaths outputPath =
     (if length inputPaths = 0 then ([], Inl NoInputFiles)
      else if length inputPaths = 1 then
        ([CopyFile (inputPaths ! 0) outputPath],
         if copyFileOk h (inputPaths ! 0) outputPath then Inr () else Inl CopyFailed)
      else
        (let listFile = outputPath @ js ''.txt''
         in if \<not> writeFileOk h listFile then ([WriteList listFile inputPaths], Inl WriteFailed)
            else
              ([WriteList listFile inputPaths, FfmpegConcat inputPaths outputPath,
                Unlink listFile],
               case ffmpegConcat h inputPaths outputPath of
                 None \<Rightarrow> Inl FfmpegFailed
               | Some code \<Rightarrow> if code = 0 then Inr () else Inl FfmpegFailed)))"

text \<open>
  \<open>mergeBroadcast\<close>: the calls made, and the result: \<open>Inr None\<close> is the returned \<open>null\<close>,
  \<open>Inr (Some b)\<close> the returned broadcast, \<open>Inl\<close> a rejection.
\<close>

definition mergeBroadcast ::
  "host \<Rightarrow> ChunkInfo list \<Rightarrow> path \<Rightarrow> call list \<times> (error + LiveBroadcast option)" where
  "mergeBroadcast h chunks liveDir =
     (if length chunks = 0 then ([], Inr None)
      else
        (let firstChunk = chunks ! 0;
             id' = replaceColonDot (toISOString h (startTime firstChunk));
             broadcastDir = pathJoin liveDir id'
         in if \<not> mkdirOk h broadcastDir then ([Mkdir broadcastDir], Inl MkdirFailed)
            else
              (let audioFile = pathJoin broadcastDir (js ''audio.mp3'');
                   jsonFile = pathJoin broadcastDir (js ''broadcast.json'');
                   chunkPaths = map c_file chunks;
                   merged = mergeAudioFiles h chunkPaths audioFile
               in case snd merged of
                    Inl e \<Rightarrow> (Mkdir broadcastDir # fst merged, Inl e)
                  | Inr u \<Rightarrow>
                      (let totalDuration = foldl (\<lambda>sum c. sum + duration c) 0 chunks
                       in case transcribeAudio (gateway h) audioFile of
                            Inl e \<Rightarrow>
                              (Mkdir broadcastDir # fst merged @ [TranscribeAudio audioFile],
                               Inl e)
                          | Inr transcript \<Rightarrow>
                              (let title' = generateTitle transcript 10;
                                   broadcast =
                                     \<lparr>b_id = id', b_title = title',
                                      b_timestamp = toISOString h (startTime firstChunk),
                                      b_duration = totalDuration,
                                      b_audioFile = js ''live/'' @ id' @ js ''/audio.mp3'',
                                      b_transcript = transcript\<rparr>
                               in if \<not> writeFileOk h jsonFile then
                                    (Mkdir broadcastDir # fst merged
                                       @ [TranscribeAudio audioFile,
                                          WriteBroadcast jsonFile broadcast],
                                     Inl WriteFailed)
                                  else
                                    (Mkdir broadcastDir # fst merged
                                       @ [TranscribeAudio audioFile,
                                          WriteBroadcast jsonFile broadcast]
                                       @ map (\<lambda>chunk. Unlink (c_file chunk)) chunks,
                                     Inr (Some broadcast)))))))"

text \<open>
  The body of the \<open>try\<close> block of both triggers: \<open>mergeBroadcast\<close>, then \<open>updateLiveIndex\<close>
  unless \<open>mergeBroadcast\<close> was rejected. The \<open>catch\<close> logs and goes on.
\<close>

definition mergePipeline :: "host \<Rightarrow> path \<Rightarrow> ChunkInfo list \<Rightarrow> call list" where
  "mergePipeline h liveDir chunks =
     (case snd (mergeBroadcast h chunks liveDir) of
        Inl e \<Rightarrow> fst (mergeBroadcast h chunks liveDir)
      | Inr b \<Rightarrow> fst (mergeBroadcast h chunks liveDir) @ [UpdateLiveIndex liveDir])"


section \<open>Broadcast assembler (index.ts: runService)\<close>

definition CHUNK_DURATION_SECS :: int where
  "CHUNK_DURATION_SECS = 120"

text \<open>
  The state of the closure of \<open>runService\<close>: \<open>pendingChunks\<close> and \<open>isProcessing\<close>. Three
  further components record what has happened. \<open>inFlight\<close> holds the runs of the \<open>try\<close>
  block that have started and not yet settled, each with the chunks it was given and,
  when a music chunk triggered it, the file of that chunk, which the handler deletes
  after the run. \<open>merges\<close> lists the argument of every call of \<open>mergeBroadcast\<close> so far,
  and \<open>hostCalls\<close> the calls made on the host. The code reads none of the three.
\<close>

record pipeline =
  chunksToMerge :: "ChunkInfo list"
  musicChunk :: "path option"

record assembler =
  pendingChunks :: "ChunkInfo list"
  isProcessing :: bool
  inFlight :: "pipeline list"
  merges :: "ChunkInfo list list"
  hostCalls :: "call list"

definition initial :: assembler where
  "initial =
     \<lparr>pendingChunks = [], isProcessing = False, inFlight = [], merges = [], hostCalls = []\<rparr>"

text \<open>
  \<open>processCompletedChunk\<close> up to its first \<open>await\<close>, at the contents the metadata buffer
  has when the chunk arrives. A speech chunk is pushed. A music chunk starts a run of
  the \<open>try\<close> block when chunks are pending and no run is in progress; otherwise its file
  is unlinked at once.
\<close>

definition processCompletedChunk ::
  "MetadataSample list \<Rightarrow> path \<Rightarrow> int \<Rightarrow> assembler \<Rightarrow> assembler" where
  "processCompletedChunk metadataBuffer chunkFile startTime' s =
     (let endTime = startTime' + CHUNK_DURATION_SECS * 1000;
          hasSpeech' = chunkHasSpeech metadataBuffer startTime' endTime
      in if hasSpeech' then
           s\<lparr>pendingChunks := pendingChunks s @
               [\<lparr>c_file = chunkFile, startTime = startTime',
                 duration = CHUNK_DURATION_SECS * 1000, hasSpeech = True\<rparr>]\<rparr>
         else if length (pendingChunks s) > 0 \<and> \<not> isProcessing s then
           s\<lparr>isProcessing := True,
             pendingChunks := [],
             inFlight := inFlight s @
               [\<lparr>chunksToMerge = pendingChunks s, musicChunk = Some chunkFile\<rparr>],
             merges := merges s @ [pendingChunks s]\<rparr>
         else s\<lparr>hostCalls := hostCalls s @ [Unlink chunkFile]\<rparr>)"

text \<open>The callback of the periodic flush, run at the instant \<open>now\<close>, up to its \<open>await\<close>.\<close>

definition idleFlush :: "int \<Rightarrow> assembler \<Rightarrow> assembler" where
  "idleFlush now s =
     (if length (pendingChunks s) > 0 \<and> \<not> isProcessing s then
        (let lastChunkTime' = startTime (pendingChunks s ! (length (pendingChunks s) - 1));
             idleTime = now - lastChunkTime' - CHUNK_DURATION_SECS * 1000
         in if idleTime > 5 * 60 * 1000 then
              s\<lparr>isProcessing := True,
                pendingChunks := [],
                inFlight := inFlight s @
                  [\<lparr>chunksToMerge = pendingChunks s, musicChunk = None\<rparr>],
                merges := merges s @ [pendingChunks s]\<rparr>
            else s)
      else s)"

text \<open>
  The run at position \<open>k\<close> of \<open>inFlight\<close> settles and its handler goes on: the flag is
  cleared, and the music chunk, if one triggered the run, is unlinked. Between its start
  and this point the run touches neither \<open>pendingChunks\<close> nor \<open>isProcessing\<close>; its calls on
  the host are recorded here, together.
\<close>

definition settle :: "host \<Rightarrow> path \<Rightarrow> nat \<Rightarrow> assembler \<Rightarrow> assembler" where
  "settle h liveDir k s =
     (if k < length (inFlight s) then
        (let p = inFlight s ! k
         in s\<lparr>isProcessing := False,
              inFlight := take k (inFlight s) @ drop (Suc k) (inFlight s),
              hostCalls := hostCalls s @ mergePipeline h liveDir (chunksToMerge p)
                @ (case musicChunk p of None \<Rightarrow> [] | Some chunkFile \<Rightarrow> [Unlink chunkFile])\<rparr>)
      else s)"

text \<open>
  The events of the single thread of control: a completed chunk, a tick of the flush
  timer, and the settling of a run in flight. Any order of them is a schedule.
\<close>

datatype event =
    ChunkCompleted "MetadataSample list" path int
  | IdleCheck int
  | Settled nat

fun step :: "host \<Rightarrow> path \<Rightarrow> assembler \<Rightarrow> event \<Rightarrow> assembler" where
  "step h liveDir s (ChunkCompleted metadataBuffer chunkFile startTime') =
     processCompletedChunk metadataBuffer chunkFile startTime' s"
| "step h liveDir s (IdleCheck now) = idleFlush now s"
| "step h liveDir s (Settled k) = settle h liveDir k s"

definition run :: "host \<Rightarrow> path \<Rightarrow> event list \<Rightarrow> assembler \<Rightarrow> assembler" where
  "run h liveDir events s = foldl (step h liveDir) s events"

fun isChunkEvent :: "event \<Rightarrow> bool" where
  "isChunkEvent (ChunkCompleted metadataBuffer chunkFile startTime') = True"
| "isChunkEvent e = False"

text \<open>What a started run produces: the result of its \<open>mergeBroadcast\<close>.\<close>

definition broadcastOf :: "host \<Rightarrow> path \<Rightarrow> pipeline \<Rightarrow> error + LiveBroadcast option" where
  "broadcastOf h liveDir p = snd (mergeBroadcast h (chunksToMerge p) liveDir)"

text \<open>
  The flag is set exactly while a run of the \<open>try\<close> block is in flight, and at most one
  run is.
\<close>

definition exclusive :: "assembler \<Rightarrow> bool" where
  "exclusive s \<longleftrightarrow> (isProcessing s \<longleftrightarrow> inFlight s \<noteq> []) \<and> length (inFlight s) \<le> 1"

subsection \<open>A sample run\<close>

text \<open>
  A buffer with a speech sample in the first four minutes and music afterwards, three
  chunk files, and a host on which every call succeeds.
\<close>

definition sampleBuffer :: "MetadataSample list" where
  "sampleBuffer =
     [\<lparr>timestamp = 60000, artist = None, title = None\<rparr>,
      \<lparr>timestamp = 180000, artist = None, title = None\<rparr>,
      \<lparr>timestamp = 300000, artist = Some (js ''Falco''), title = Some (js ''Jeanny'')\<rparr>]"

definition sampleMerger :: host where
  "sampleMerger =
     \<lparr>gateway = sampleHost,
      toISOString = (\<lambda>t. js ''2024-05-01T06:00:00.000Z''),
      mkdirOk = (\<lambda>p. True),
      copyFileOk = (\<lambda>p q. True),
      writeFileOk = (\<lambda>p. True),
      ffmpegConcat = (\<lambda>ps p. Some 0)\<rparr>"

definition firstChunk :: ChunkInfo where
  "firstChunk = \<lparr>c_file = js ''c1.mp3'', startTime = 0, duration = 120000, hasSpeech = True\<rparr>"

definition secondChunk :: ChunkInfo where
  "secondChunk =
     \<lparr>c_file = js ''c2.mp3'', startTime = 120000, duration = 120000, hasSpeech = True\<rparr>"

definition thirdChunkFile :: path where
  "thirdChunkFile = js ''c3.mp3''"

definition sampleBroadcast :: LiveBroadcast where
  "sampleBroadcast =
     \<lparr>b_id = js ''2024-05-01T06-00-00-000Z'', b_title = js ''hier'',
      b_timestamp = js ''2024-05-01T06:00:00.000Z'', b_duration = 240000,
      b_audioFile = js ''live/2024-05-01T06-00-00-000Z/audio.mp3'',
      b_transcript = [\<lparr>seg_start = 1000, seg_end = 2031, seg_text = js ''hier''\<rparr>]\<rparr>"

text \<open>The two speech chunks and then the music chunk arrive.\<close>

definition sampleArrivals :: "event list" where
  "sampleArrivals =
     [ChunkCompleted sampleBuffer (js ''c1.mp3'') 0,
      ChunkCompleted sampleBuffer (js ''c2.mp3'') 120000,
      ChunkCompleted sampleBuffer thirdChunkFile 240000]"

text \<open>
  A buffer with a speech sample in the seventh minute, and the state after the two speech
  chunks have arrived.
\<close>

definition laterBuffer :: "MetadataSample list" where
  "laterBuffer = [\<lparr>timestamp = 400000, artist = None, title = None\<rparr>]"

definition twoPending :: assembler where
  "twoPending = run sampleMerger (js ''data/live'') (take 2 sampleArrivals) initial"

section \<open>Recorder and watchdog (the revision of index.ts in README.md)\<close>

text \<open>
  The watchdog is part of the later revision of index.ts that README.md carries:
  \<open>lastChunkTime\<close> and \<open>ffmpegProcess\<close> are variables of \<open>runService\<close> there; src/index.ts
  has neither. A process is named by the number of its spawn. \<open>spawned\<close> counts the
  spawns and \<open>killed\<close> lists the processes that were sent SIGKILL; the code reads
  neither.
\<close>

record recorder =
  lastChunkTime :: int
  ffmpegProcess :: "nat option"
  spawned :: nat
  killed :: "nat list"

text \<open>\<open>let lastChunkTime = Date.now(); let ffmpegProcess = null\<close>.\<close>

definition recorderAt :: "int \<Rightarrow> recorder" where
  "recorderAt t0 = \<lparr>lastChunkTime = t0, ffmpegProcess = None, spawned = 0, killed = []\<rparr>"

text \<open>\<open>startRecording\<close>, at the instant \<open>now\<close>.\<close>

definition startRecording :: "int \<Rightarrow> recorder \<Rightarrow> recorder" where
  "startRecording now r =
     r\<lparr>lastChunkTime := now, ffmpegProcess := Some (spawned r), spawned := Suc (spawned r)\<rparr>"

text \<open>
  The handler of the process's diagnostic output, for a line that announces a new
  segment file; what it hands to the assembler is not part of this state.
\<close>

definition segmentOpened :: "int \<Rightarrow> recorder \<Rightarrow> recorder" where
  "segmentOpened now r = r\<lparr>lastChunkTime := now\<rparr>"

text \<open>
  The handlers of \<open>exit\<close> and \<open>error\<close>; both schedule \<open>startRecording\<close> five seconds
  later, which arrives as an event of its own.
\<close>

definition processGone :: "recorder \<Rightarrow> recorder" where
  "processGone r = r\<lparr>ffmpegProcess := None\<rparr>"

text \<open>The callback of the watchdog timer, at the instant \<open>now\<close>.\<close>

definition watchdog :: "int \<Rightarrow> recorder \<Rightarrow> recorder" where
  "watchdog now r =
     (let staleTime = now - lastChunkTime r
      in if staleTime > 5 * 60 * 1000 \<and> ffmpegProcess r \<noteq> None then
           r\<lparr>killed := killed r @ [the (ffmpegProcess r)]\<rparr>
         else r)"

definition watchdogKills :: "int \<Rightarrow> recorder \<Rightarrow> bool" where
  "watchdogKills now r \<longleftrightarrow> killed (watchdog now r) \<noteq> killed r"

datatype recorderEvent =
    StartRecording int
  | SegmentOpened int
  | ProcessExit
  | ProcessError
  | WatchdogCheck int

fun recorderStep :: "recorder \<Rightarrow> recorderEvent \<Rightarrow> recorder" where
  "recorderStep r (StartRecording now) = startRecording now r"
| "recorderStep r (SegmentOpened now) = segmentOpened now r"
| "recorderStep r ProcessExit = processGone r"
| "recorderStep r ProcessError = processGone r"
| "recorderStep r (WatchdogCheck now) = watchdog now r"

definition runRecorder :: "recorderEvent list \<Rightarrow> recorder \<Rightarrow> recorder" where
  "runRecorder events r = foldl recorderStep r events"

text \<open>
  Read off a run of events: the instant at which a new chunk was last observed, if any
  was; the instant of the last observation of a chunk or start of the recording, \<open>t0\<close>
  when there was neither; and the instants the events carry, in their order.
\<close>

fun observedAt :: "int option \<Rightarrow> recorderEvent \<Rightarrow> int option" where
  "observedAt seen (SegmentOpened t) = Some t"
| "observedAt seen e = seen"

definition lastSegmentOpened :: "recorderEvent list \<Rightarrow> int option" where
  "lastSegmentOpened events = foldl observedAt None events"

fun activityAt :: "int \<Rightarrow> recorderEvent \<Rightarrow> int" where
  "activityAt seen (SegmentOpened t) = t"
| "activityAt seen (StartRecording t) = t"
| "activityAt seen e = seen"

definition lastActivity :: "int \<Rightarrow> recorderEvent list \<Rightarrow> int" where
  "lastActivity t0 events = foldl activityAt t0 events"

fun instantOf :: "recorderEvent \<Rightarrow> int list" where
  "instantOf (StartRecording t) = [t]"
| "instantOf (SegmentOpened t) = [t]"
| "instantOf (WatchdogCheck t) = [t]"
| "instantOf e = []"

definition instants :: "recorderEvent list \<Rightarrow> int list" where
  "instants events = concat (map instantOf events)"

section \<open>Properties of the sampler and the classifier\<close>

lemma prune_dropWhile: "prune cutoff ss = dropWhile (\<lambda>s. timestamp s < cutoff) ss"
  by (induction ss) auto

lemma prune_suffix_bound:
  assumes "sorted (map timestamp ss)" and "cutoff \<le> timestamp x"
    and "s \<in> set (prune cutoff (ss @ [x]))"
  shows "cutoff \<le> timestamp s"
  using assms
proof (induction ss)
  case Nil
  then show ?case by (simp split: if_splits)
next
  case (Cons a ss)
  show ?case
  proof (cases "timestamp a < cutoff")
    case True
    with Cons show ?thesis by simp
  next
    case False
    with Cons.prems show ?thesis by auto
  qed
qed

lemma filter_noArtist_empty_iff:
  "filter noArtist xs = [] \<longleftrightarrow> \<not> list_ex noArtist xs"
  by (induction xs) auto

text \<open>
  C5. After the insert of a poller tick into a buffer whose timestamps are
  non-decreasing, every sample left in the buffer has a timestamp no older than the
  retention window of 15 minutes (900000 ms) before the insert time.
\<close>

theorem C5_retention_after_insert:
  assumes "sorted (map timestamp metadataBuffer)"
    and "s \<in> set (pollerTick now a t metadataBuffer)"
  shows "now - 900000 \<le> timestamp s"
proof -
  let ?x = "\<lparr>timestamp = now, artist = orNull a, title = orNull t\<rparr>"
  have "s \<in> set (prune (now - 900000) (metadataBuffer @ [?x]))"
    using assms(2) by (simp add: pollerTick_def)
  moreover have "now - 900000 \<le> timestamp ?x" by simp
  ultimately show ?thesis
    using assms(1) prune_suffix_bound by blast
qed

text \<open>
  The theorem at a buffer holding a sample of instant 0 and one of instant 500000, and an
  insert at instant 1000000: the old sample is gone, the other two stay.
\<close>

theorem C5_retention_after_insert_witness:
  "sorted (map timestamp
       [\<lparr>timestamp = 0, artist = None, title = None\<rparr>,
        \<lparr>timestamp = 500000, artist = Some (js ''Falco''), title = None\<rparr>])
   \<and> pollerTick 1000000 None None
       [\<lparr>timestamp = 0, artist = None, title = None\<rparr>,
        \<lparr>timestamp = 500000, artist = Some (js ''Falco''), title = None\<rparr>]
     = [\<lparr>timestamp = 500000, artist = Some (js ''Falco''), title = None\<rparr>,
        \<lparr>timestamp = 1000000, artist = None, title = None\<rparr>]
   \<and> (1000000::int) - 900000
       \<le> timestamp \<lparr>timestamp = 500000, artist = Some (js ''Falco''), title = None\<rparr>"
proof -
  let ?old = "\<lparr>timestamp = 0, artist = None, title = None\<rparr> :: MetadataSample"
  let ?mid = "\<lparr>timestamp = 500000, artist = Some (js ''Falco''), title = None\<rparr>"
  have h: "sorted (map timestamp [?old, ?mid])" by simp
  have e: "pollerTick 1000000 None None [?old, ?mid]
      = [?mid, \<lparr>timestamp = 1000000, artist = None, title = None\<rparr>]"
    by (simp add: pollerTick_def orNull_def)
  have m: "?mid \<in> set (pollerTick 1000000 None None [?old, ?mid])"
    by (simp add: e)
  from C5_retention_after_insert [OF h m] h e show ?thesis by simp
qed

text \<open>
  C4. For every time range and every buffer, the speech ratio lies in \<open>[0, 1]\<close>, it is 0
  when no sample falls in the range, and the range is classified as speech exactly when
  the ratio is positive.
\<close>

theorem C4_speechRatio_range_and_isSpeech:
  "0 \<le> getChunkSpeechRatio metadataBuffer startMs endMs
   \<and> getChunkSpeechRatio metadataBuffer startMs endMs \<le> 1
   \<and> (filter (inRange startMs endMs) metadataBuffer = []
        \<longrightarrow> getChunkSpeechRatio metadataBuffer startMs endMs = 0)
   \<and> (chunkHasSpeech metadataBuffer startMs endMs
        \<longleftrightarrow> 0 < getChunkSpeechRatio metadataBuffer startMs endMs)"
proof -
  define samples where "samples = filter (inRange startMs endMs) metadataBuffer"
  define k where "k = length (filter noArtist samples)"
  define n where "n = length samples"
  have le: "k \<le> n" unfolding k_def n_def by (rule length_filter_le)
  have k0: "k = 0 \<longleftrightarrow> \<not> list_ex noArtist samples"
    unfolding k_def using filter_noArtist_empty_iff [of samples] by simp
  have hs: "chunkHasSpeech metadataBuffer startMs endMs \<longleftrightarrow> list_ex noArtist samples"
    by (simp only: chunkHasSpeech_def Let_def samples_def)
  have r: "getChunkSpeechRatio metadataBuffer startMs endMs
      = (if n = 0 then 0 else real k / real n)"
    by (simp only: getChunkSpeechRatio_def Let_def samples_def k_def n_def)
  have e: "filter (inRange startMs endMs) metadataBuffer = [] \<longleftrightarrow> n = 0"
    by (simp only: n_def samples_def length_0_conv)
  show ?thesis
  proof (cases "n = 0")
    case True
    with le have "k = 0" by simp
    with True k0 show ?thesis by (simp only: r hs e) simp
  next
    case False
    then have pos: "0 < real n" by simp
    have b0: "0 \<le> real k / real n" by simp
    have b1: "real k / real n \<le> 1"
      using le pos by (simp add: divide_le_eq_1)
    have b2: "0 < real k / real n \<longleftrightarrow> k \<noteq> 0"
      using pos by (simp add: zero_less_divide_iff)
    from False b0 b1 b2 k0 show ?thesis by (simp only: r hs e) simp
  qed
qed

text \<open>
  The theorem at a range outside every sample (ratio 0, no speech) and, in the same
  buffer, a range holding one speech sample out of two (ratio one half).
\<close>

theorem C4_speechRatio_range_and_isSpeech_witness:
  "filter (inRange 5000 6000)
       [\<lparr>timestamp = 1000, artist = None, title = None\<rparr>,
        \<lparr>timestamp = 2000, artist = Some (js ''Falco''), title = None\<rparr>] = []
   \<and> getChunkSpeechRatio
       [\<lparr>timestamp = 1000, artist = None, title = None\<rparr>,
        \<lparr>timestamp = 2000, artist = Some (js ''Falco''), title = None\<rparr>] 5000 6000 = 0
   \<and> \<not> chunkHasSpeech
       [\<lparr>timestamp = 1000, artist = None, title = None\<rparr>,
        \<lparr>timestamp = 2000, artist = Some (js ''Falco''), title = None\<rparr>] 5000 6000
   \<and> getChunkSpeechRatio
       [\<lparr>timestamp = 1000, artist = None, title = None\<rparr>,
        \<lparr>timestamp = 2000, artist = Some (js ''Falco''), title = None\<rparr>] 0 3000 = 1 / 2
   \<and> chunkHasSpeech
       [\<lparr>timestamp = 1000, artist = None, title = None\<rparr>,
        \<lparr>timestamp = 2000, artist = Some (js ''Falco''), title = None\<rparr>] 0 3000"
proof -
  let ?buf = "[\<lparr>timestamp = 1000, artist = None, title = None\<rparr>,
        \<lparr>timestamp = 2000, artist = Some (js ''Falco''), title = None\<rparr>]"
  have e: "filter (inRange 5000 6000) ?buf = []"
    by (simp add: inRange_def)
  have r: "getChunkSpeechRatio ?buf 0 3000 = 1 / 2"
    by (simp add: getChunkSpeechRatio_def inRange_def noArtist_def js_def)
  from C4_speechRatio_range_and_isSpeech [of ?buf 5000 6000]
    C4_speechRatio_range_and_isSpeech [of ?buf 0 3000] e r
  show ?thesis by simp
qed

section \<open>Properties of the title\<close>

declare wordsOf.simps [simp del]

lemma wordsOf_Nil: "wordsOf [] = []"
  by (simp add: wordsOf.simps)

lemma wordsOf_space: "isWhiteSpace c \<Longrightarrow> wordsOf (c # cs) = wordsOf cs"
  by (subst wordsOf.simps, subst (2) wordsOf.simps) simp

lemma wordsOf_letter:
  "\<not> isWhiteSpace c \<Longrightarrow>
     wordsOf (c # cs)
       = (c # takeWhile (\<lambda>x. \<not> isWhiteSpace x) cs)
           # wordsOf (dropWhile (\<lambda>x. \<not> isWhiteSpace x) cs)"
  by (subst wordsOf.simps) simp

lemma wordsOf_run:
  "takeWhile (\<lambda>x. \<not> isWhiteSpace x) s \<noteq> [] \<Longrightarrow>
     wordsOf s = takeWhile (\<lambda>x. \<not> isWhiteSpace x) s
                   # wordsOf (dropWhile (\<lambda>x. \<not> isWhiteSpace x) s)"
  by (cases s) (auto simp: wordsOf_letter split: if_splits)

lemma wordsOf_dropWhile: "wordsOf (dropWhile isWhiteSpace s) = wordsOf s"
  by (induction s) (auto simp: wordsOf_space)

text \<open>
  What \<open>split\<close> followed by the filter on the length computes, for any piece collected
  so far: the words of the text.
\<close>

lemma filter_splitFrom:
  "filter (\<lambda>w. length w > 0) (splitFrom piece s) =
     (if piece @ takeWhile (\<lambda>x. \<not> isWhiteSpace x) s = [] then wordsOf s
      else (piece @ takeWhile (\<lambda>x. \<not> isWhiteSpace x) s)
             # wordsOf (dropWhile (\<lambda>x. \<not> isWhiteSpace x) s))"
proof (induction piece s rule: splitFrom.induct)
  case (1 piece)
  show ?case by (simp add: wordsOf_Nil)
next
  case (2 piece c cs)
  show ?case
  proof (cases "isWhiteSpace c")
    case True
    let ?r = "dropWhile isWhiteSpace cs"
    have "filter (\<lambda>w. length w > 0) (splitFrom [] ?r) = wordsOf ?r"
      using 2(1) [OF True] wordsOf_run [of ?r] by (simp split: if_splits)
    then have "filter (\<lambda>w. length w > 0) (splitFrom [] ?r) = wordsOf cs"
      by (simp add: wordsOf_dropWhile)
    with True show ?thesis by (simp add: wordsOf_space)
  next
    case False
    with 2(2) show ?thesis by simp
  qed
qed

lemma words_of_split:
  "filter (\<lambda>w. length w > 0) (splitWhiteSpace s) = wordsOf s"
  using filter_splitFrom [of "[]" s] wordsOf_run [of s]
  by (simp add: splitWhiteSpace_def split: if_splits)

lemma wordsOf_no_space:
  "w \<in> set (wordsOf s) \<Longrightarrow> w \<noteq> [] \<and> (\<forall>c \<in> set w. \<not> isWhiteSpace c)"
proof (induction s arbitrary: w rule: wordsOf.induct)
  case (1 s)
  show ?case
  proof (cases "dropWhile isWhiteSpace s")
    case Nil
    with "1.prems" show ?thesis by (simp add: wordsOf.simps [of s])
  next
    case (Cons c cs)
    then have c: "\<not> isWhiteSpace c"
      by (metis hd_dropWhile list.distinct(1) list.sel(1))
    from "1.prems" Cons
    have "w = takeWhile (\<lambda>x. \<not> isWhiteSpace x) (c # cs)
        \<or> w \<in> set (wordsOf (dropWhile (\<lambda>x. \<not> isWhiteSpace x) cs))"
      by (simp add: wordsOf.simps [of s])
    then show ?thesis
    proof
      assume "w = takeWhile (\<lambda>x. \<not> isWhiteSpace x) (c # cs)"
      with c show ?thesis by (auto dest: set_takeWhileD)
    next
      assume "w \<in> set (wordsOf (dropWhile (\<lambda>x. \<not> isWhiteSpace x) cs))"
      with "1.IH" [OF Cons] show ?thesis by blast
    qed
  qed
qed

lemma slice0_nonneg: "0 \<le> e \<Longrightarrow> slice0 e xs = take (nat e) xs"
  by (simp add: slice0_def Let_def min_def)

text \<open>
  C8. \<open>maxWords\<close> is a number of words, so it is not negative. When the concatenated text
  has more than \<open>maxWords\<close> words, the title is the first \<open>maxWords\<close> words joined by single
  spaces, followed by the marker \<open>...\<close>; when it has at most \<open>maxWords\<close> words, the title is
  all the words joined by single spaces, with no marker.
\<close>

theorem C8_generateTitle_first_words:
  assumes "0 \<le> maxWords"
  shows "(int (length (wordsOf (joinWith (js '' '') (map seg_text segs)))) > maxWords \<longrightarrow>
      generateTitle segs maxWords
        = joinWith (js '' '')
            (take (nat maxWords) (wordsOf (joinWith (js '' '') (map seg_text segs))))
            @ js ''...'')
    \<and> (int (length (wordsOf (joinWith (js '' '') (map seg_text segs)))) \<le> maxWords \<longrightarrow>
      generateTitle segs maxWords
        = joinWith (js '' '') (wordsOf (joinWith (js '' '') (map seg_text segs))))"
proof -
  let ?ws = "wordsOf (joinWith (js '' '') (map seg_text segs))"
  have "generateTitle segs maxWords
      = joinWith (js '' '') (slice0 maxWords ?ws)
          @ (if int (length ?ws) > maxWords then js ''...'' else [])"
    by (simp only: generateTitle_def Let_def words_of_split)
  then show ?thesis
    using assms by (simp add: slice0_nonneg)
qed

lemma words_fifteenWords:
  "wordsOf (joinWith (js '' '') (map seg_text fifteenWords))
     = map js [''eins'', ''zwei'', ''drei'', ''vier'', ''fuenf'', ''sechs'', ''sieben'',
         ''acht'', ''neun'', ''zehn'', ''elf'', ''zwoelf'', ''dreizehn'', ''vierzehn'',
         ''fuenfzehn'']"
  by (simp add: fifteenWords_def js_def wordsOf_space wordsOf_letter wordsOf_Nil
      isWhiteSpace_def)

lemma words_fiveWords:
  "wordsOf (joinWith (js '' '') (map seg_text fiveWords))
     = map js [''Guten'', ''Abend'', ''liebe'', ''Hoerer'', ''hier'']"
  by (simp add: fiveWords_def js_def wordsOf_space wordsOf_letter wordsOf_Nil
      isWhiteSpace_def)

text \<open>
  The theorem at the fifteen words with \<open>maxWords = 10\<close> (ten words and the marker) and
  at the five words (all five, no marker).
\<close>

theorem C8_generateTitle_first_words_witness:
  "(0::int) \<le> 10
   \<and> generateTitle fifteenWords 10
       = js ''eins zwei drei vier fuenf sechs sieben acht neun zehn...''
   \<and> generateTitle fiveWords 10 = js ''Guten Abend liebe Hoerer hier''"
proof -
  have a: "generateTitle fifteenWords 10
      = js ''eins zwei drei vier fuenf sechs sieben acht neun zehn...''"
    using C8_generateTitle_first_words [of 10 fifteenWords]
    by (simp add: words_fifteenWords) (simp add: js_def)
  have b: "generateTitle fiveWords 10 = js ''Guten Abend liebe Hoerer hier''"
    using C8_generateTitle_first_words [of 10 fiveWords]
    by (simp add: words_fiveWords) (simp add: js_def)
  from a b show ?thesis by simp
qed

section \<open>Properties of the transcription gateway\<close>

lemma offsetSegment_shift: "offsetSegment d seg = shiftBy d (inMs seg)"
  by (simp add: offsetSegment_def shiftBy_def inMs_def toMs_def)

lemma directSegment_inMs: "directSegment seg = inMs seg"
  by (simp add: directSegment_def inMs_def toMs_def)

lemma offsetOf_0: "offsetOf rs 0 = 0"
  by (simp add: offsetOf_def)

lemma offsetOf_Suc: "offsetOf (r # rs) (Suc i) = toMs (r_duration r) + offsetOf rs i"
  by (simp add: offsetOf_def)

text \<open>
  The loop, started with any segments collected so far and any running offset, when
  every sub-segment is answered.
\<close>

lemma transcribeChunks_loop:
  assumes "list_all2 (answered h) files rs"
  shows "transcribeChunks h files acc off =
     Inr (acc @ concat (map (\<lambda>i. map (\<lambda>seg. shiftBy (off + offsetOf rs i) (inMs seg))
                                     (r_segments (rs ! i)))
                          [0..<length rs]))"
  using assms
proof (induction files rs arbitrary: acc off rule: list_all2_induct)
  case Nil
  show ?case by simp
next
  case (Cons f files r rs)
  from Cons.hyps(1) obtain n
    where n: "getFileSize h f = Inr n" and t: "transcribeChunk h f = Inr r"
    by (auto simp: answered_def)
  have ix: "[0..<length (r # rs)] = 0 # map Suc [0..<length rs]"
    by (simp add: upt_conv_Cons map_Suc_upt del: upt_Suc)
  show ?case
    by (simp only: ix transcribeChunks.simps n t sum.case Cons.IH)
       (simp add: offsetOf_0 offsetOf_Suc offsetSegment_shift toMs_def comp_def add.assoc)
qed

text \<open>
  C6. For a file larger than the threshold of 20 MB that the host splits into files, each
  of which it answers, the result is the transcripts of the sub-segments in split order,
  the segments of sub-segment \<open>i\<close> moved by the sum of the reported durations (in rounded
  milliseconds) of the sub-segments before it. For a file at or below the threshold the
  result is the segments of the one answer, in rounded milliseconds, not moved.
\<close>

theorem C6_transcribeAudio_offsets:
  "(getFileSize h p = Inr n \<and> MAX_FILE_SIZE < n \<and> mkdtemp h p = Inr d
      \<and> splitAudioFile h p d = Inr files \<and> list_all2 (answered h) files rs
      \<longrightarrow> transcribeAudio h p = Inr (offsetTranscript rs))
   \<and> (getFileSize h p = Inr n \<and> n \<le> MAX_FILE_SIZE \<and> transcribeChunk h p = Inr r
      \<longrightarrow> transcribeAudio h p = Inr (map inMs (r_segments r)))"
proof (intro conjI impI)
  assume a: "getFileSize h p = Inr n \<and> MAX_FILE_SIZE < n \<and> mkdtemp h p = Inr d
      \<and> splitAudioFile h p d = Inr files \<and> list_all2 (answered h) files rs"
  then have "transcribeAudio h p = transcribeChunks h files [] 0"
    by (simp add: transcribeAudio_def)
  also have "\<dots> = Inr (offsetTranscript rs)"
    using a transcribeChunks_loop [of h files rs "[]" 0]
    by (simp add: offsetTranscript_def)
  finally show "transcribeAudio h p = Inr (offsetTranscript rs)" .
next
  assume "getFileSize h p = Inr n \<and> n \<le> MAX_FILE_SIZE \<and> transcribeChunk h p = Inr r"
  then show "transcribeAudio h p = Inr (map inMs (r_segments r))"
    by (simp add: transcribeAudio_def directSegment_inMs)
qed

lemma offsetTranscript_sample:
  "offsetTranscript [firstAnswer, secondAnswer] =
     [\<lparr>seg_start = 0, seg_end = 2500, seg_text = js ''Guten Abend''\<rparr>,
      \<lparr>seg_start = 2500, seg_end = 479750, seg_text = js ''liebe Hoerer''\<rparr>,
      \<lparr>seg_start = 480750, seg_end = 481781, seg_text = js ''hier''\<rparr>]"
  by (simp add: offsetTranscript_def offsetOf_def firstAnswer_def secondAnswer_def
      shiftBy_def inMs_def toMs_def mathRound_def js_def trim_def isWhiteSpace_def
      upt_conv_Cons)

lemma inMs_sample:
  "map inMs (r_segments secondAnswer)
     = [\<lparr>seg_start = 1000, seg_end = 2031, seg_text = js ''hier''\<rparr>]"
  by (simp add: secondAnswer_def inMs_def toMs_def mathRound_def js_def trim_def
      isWhiteSpace_def)

text \<open>
  The theorem at the sample host: the large file (the segment of the second sub-segment
  starts at 1000 + 479750, not at 1000 + 480000) and a small file.
\<close>

theorem C6_transcribeAudio_offsets_witness:
  "getFileSize sampleHost (js ''big.mp3'') = Inr 30000000
   \<and> MAX_FILE_SIZE < 30000000
   \<and> list_all2 (answered sampleHost) [js ''s0'', js ''s1''] [firstAnswer, secondAnswer]
   \<and> transcribeAudio sampleHost (js ''big.mp3'') =
       Inr [\<lparr>seg_start = 0, seg_end = 2500, seg_text = js ''Guten Abend''\<rparr>,
            \<lparr>seg_start = 2500, seg_end = 479750, seg_text = js ''liebe Hoerer''\<rparr>,
            \<lparr>seg_start = 480750, seg_end = 481781, seg_text = js ''hier''\<rparr>]
   \<and> getFileSize sampleHost (js ''small.mp3'') = Inr 1000
   \<and> 1000 \<le> MAX_FILE_SIZE
   \<and> transcribeAudio sampleHost (js ''small.mp3'') =
       Inr [\<lparr>seg_start = 1000, seg_end = 2031, seg_text = js ''hier''\<rparr>]"
proof -
  have big: "getFileSize sampleHost (js ''big.mp3'') = Inr 30000000
      \<and> MAX_FILE_SIZE < 30000000
      \<and> mkdtemp sampleHost (js ''big.mp3'') = Inr (js ''split_x'')
      \<and> splitAudioFile sampleHost (js ''big.mp3'') (js ''split_x'')
          = Inr [js ''s0'', js ''s1'']
      \<and> list_all2 (answered sampleHost) [js ''s0'', js ''s1''] [firstAnswer, secondAnswer]"
    by (simp add: sampleHost_def MAX_FILE_SIZE_def answered_def js_def)
  have small: "getFileSize sampleHost (js ''small.mp3'') = Inr 1000
      \<and> 1000 \<le> MAX_FILE_SIZE
      \<and> transcribeChunk sampleHost (js ''small.mp3'') = Inr secondAnswer"
    by (simp add: sampleHost_def MAX_FILE_SIZE_def js_def)
  from C6_transcribeAudio_offsets
      [of sampleHost "js ''big.mp3''" 30000000 "js ''split_x''" "[js ''s0'', js ''s1'']"
        "[firstAnswer, secondAnswer]"] big
  have a: "transcribeAudio sampleHost (js ''big.mp3'')
      = Inr (offsetTranscript [firstAnswer, secondAnswer])"
    by blast
  from C6_transcribeAudio_offsets
      [of sampleHost "js ''small.mp3''" 1000 _ _ _ secondAnswer] small
  have b: "transcribeAudio sampleHost (js ''small.mp3'')
      = Inr (map inMs (r_segments secondAnswer))"
    by blast
  from a b big small show ?thesis
    by (simp only: offsetTranscript_sample inMs_sample)
qed

section \<open>Properties of the index builder\<close>

lemma readBroadcasts_acc: "readBroadcasts es acc = acc @ parsedValues es"
  by (induction es arbitrary: acc) (auto simp: parsedValues_def split: jsonFile.splits)

lemma codeUnitCompare_le: "codeUnitCompare x y \<le> 0 \<longleftrightarrow> x \<le> y"
  by (induction x y rule: codeUnitCompare.induct) auto

lemma consistent_codeUnitCompare: "consistent codeUnitCompare"
  unfolding consistent_def codeUnitCompare_le by (meson linear order_trans)

lemma timestampCompare_error: "timestampCompare lc a b = Inl e \<Longrightarrow> e = TypeError"
  by (cases b; cases a) auto

lemma insertBy_error:
  "insertBy (timestampCompare lc) a bs = Inl e \<Longrightarrow> e = TypeError"
  by (induction bs) (auto split: sum.splits if_splits dest: timestampCompare_error)

lemma sortBy_error: "sortBy (timestampCompare lc) vs = Inl e \<Longrightarrow> e = TypeError"
  by (induction vs arbitrary: e) (auto split: sum.splits dest: insertBy_error)

lemma length_insertBy: "insertBy cmp a bs = Inr ys \<Longrightarrow> length ys = Suc (length bs)"
  by (induction bs arbitrary: ys) (auto split: sum.splits if_splits)

lemma length_sortBy: "sortBy cmp vs = Inr ys \<Longrightarrow> length ys = length vs"
  by (induction vs arbitrary: ys) (auto split: sum.splits dest: length_insertBy)

lemma null_left: "timestampCompare lc JsonNull b = Inl TypeError"
  by (cases b) auto

lemma insertBy_null: "bs \<noteq> [] \<Longrightarrow> insertBy (timestampCompare lc) JsonNull bs = Inl TypeError"
  by (cases bs) (auto simp: null_left)

text \<open>
  A \<open>null\<close> among two or more parsed values makes the sort throw: it is compared at
  least once, and the comparator throws on it in either position.
\<close>

lemma sortBy_null:
  "JsonNull \<in> set vs \<Longrightarrow> 2 \<le> length vs \<Longrightarrow> sortBy (timestampCompare lc) vs = Inl TypeError"
proof (induction vs)
  case Nil
  then show ?case by simp
next
  case (Cons a rest)
  show ?case
  proof (cases "sortBy (timestampCompare lc) rest")
    case (Inl e)
    with sortBy_error [OF Inl] show ?thesis by simp
  next
    case (Inr sorted)
    from length_sortBy [OF Inr] Cons.prems(2) have ne: "sorted \<noteq> []" by auto
    show ?thesis
    proof (cases "a = JsonNull")
      case True
      with Inr ne show ?thesis by (simp add: insertBy_null)
    next
      case False
      with Cons.prems(1) have m: "JsonNull \<in> set rest" by simp
      have "\<not> 2 \<le> length rest" using Cons.IH [OF m] Inr by auto
      then have "length rest \<le> 1" by simp
      with m have "rest = [JsonNull]" by (cases rest) auto
      with Inr have "sorted = [JsonNull]" by simp
      with Inr show ?thesis by simp
    qed
  qed
qed

lemma updateLiveIndex_null:
  "JsonNull \<in> set (parsedValues entries) \<Longrightarrow> 2 \<le> length (parsedValues entries) \<Longrightarrow>
     updateLiveIndex lc (Inr entries) writeOk = Inl TypeError"
  using readBroadcasts_acc [of entries "[]"]
  by (simp add: updateLiveIndex_def sortBy_null)

text \<open>
  When every parsed value is a record and the collation is consistent, no call of the
  comparator throws and the manifest is the records, each as often as the listing holds
  it, with timestamps descending in the collation. Files that are missing or do not
  parse are skipped by the loop.
\<close>

lemma insertBy_records:
  assumes "consistent lc"
    and "sorted_wrt (\<lambda>a b. lc (b_timestamp b) (b_timestamp a) \<le> 0) bs"
  shows "\<exists>ys. insertBy (timestampCompare lc) (Record a) (map Record bs) = Inr (map Record ys)
      \<and> mset ys = add_mset a (mset bs)
      \<and> sorted_wrt (\<lambda>a b. lc (b_timestamp b) (b_timestamp a) \<le> 0) ys"
  using assms(2)
proof (induction bs)
  case Nil
  show ?case by (rule exI [of _ "[a]"]) simp
next
  case (Cons b bs)
  from assms(1) have total: "\<And>x y. lc x y \<le> 0 \<or> lc y x \<le> 0"
    and trans: "\<And>x y z. lc x y \<le> 0 \<Longrightarrow> lc y z \<le> 0 \<Longrightarrow> lc x z \<le> 0"
    unfolding consistent_def by blast+
  show ?case
  proof (cases "lc (b_timestamp b) (b_timestamp a) \<le> 0")
    case True
    have "\<forall>x \<in> set bs. lc (b_timestamp x) (b_timestamp a) \<le> 0"
      using Cons.prems True trans by auto
    with True Cons.prems show ?thesis
      by (intro exI [of _ "a # b # bs"]) simp
  next
    case False
    with total have ba: "lc (b_timestamp a) (b_timestamp b) \<le> 0" by blast
    from Cons.prems have "sorted_wrt (\<lambda>a b. lc (b_timestamp b) (b_timestamp a) \<le> 0) bs" by simp
    from Cons.IH [OF this] obtain ys
      where ys: "insertBy (timestampCompare lc) (Record a) (map Record bs) = Inr (map Record ys)"
        "mset ys = add_mset a (mset bs)"
        "sorted_wrt (\<lambda>a b. lc (b_timestamp b) (b_timestamp a) \<le> 0) ys"
      by blast
    from ys(2) have "set ys = insert a (set bs)"
      by (metis set_mset_add_mset_insert set_mset_mset)
    with Cons.prems ba ys(3)
    have "sorted_wrt (\<lambda>a b. lc (b_timestamp b) (b_timestamp a) \<le> 0) (b # ys)" by auto
    with False ys show ?thesis
      by (intro exI [of _ "b # ys"]) simp
  qed
qed

lemma sortBy_records:
  assumes "consistent lc"
  shows "\<exists>ys. sortBy (timestampCompare lc) (map Record bs) = Inr (map Record ys)
      \<and> mset ys = mset bs
      \<and> sorted_wrt (\<lambda>a b. lc (b_timestamp b) (b_timestamp a) \<le> 0) ys"
proof (induction bs)
  case Nil
  show ?case by simp
next
  case (Cons b bs)
  then obtain ys
    where ys: "sortBy (timestampCompare lc) (map Record bs) = Inr (map Record ys)"
      "mset ys = mset bs" "sorted_wrt (\<lambda>a b. lc (b_timestamp b) (b_timestamp a) \<le> 0) ys"
    by blast
  from insertBy_records [OF assms ys(3), of b] obtain zs
    where zs: "insertBy (timestampCompare lc) (Record b) (map Record ys) = Inr (map Record zs)"
      "mset zs = add_mset b (mset ys)"
      "sorted_wrt (\<lambda>a b. lc (b_timestamp b) (b_timestamp a) \<le> 0) zs"
    by blast
  with ys show ?case
    by (intro exI [of _ zs]) simp
qed

lemma parsedValues_records:
  "\<forall>v \<in> set (parsedValues entries). \<exists>b. v = Record b \<Longrightarrow>
     parsedValues entries = map Record (validRecords entries)"
proof -
  have "\<forall>v \<in> set vs. \<exists>b. v = Record b \<Longrightarrow>
      vs = map Record (concat (map (\<lambda>v. case v of Record b \<Rightarrow> [b] | _ \<Rightarrow> []) vs))" for vs
    by (induction vs) auto
  then show "\<forall>v \<in> set (parsedValues entries). \<exists>b. v = Record b \<Longrightarrow>
     parsedValues entries = map Record (validRecords entries)"
    unfolding validRecords_def by blast
qed

lemma updateLiveIndex_records:
  assumes "consistent lc"
    and "\<forall>v \<in> set (parsedValues entries). \<exists>b. v = Record b"
  shows "\<exists>manifest. updateLiveIndex lc (Inr entries) True = Inr (map Record manifest)
      \<and> mset manifest = mset (validRecords entries)
      \<and> sorted_wrt (\<lambda>a b. lc (b_timestamp b) (b_timestamp a) \<le> 0) manifest"
proof -
  from sortBy_records [OF assms(1), of "validRecords entries"] obtain ys
    where ys: "sortBy (timestampCompare lc) (map Record (validRecords entries)) = Inr (map Record ys)"
      "mset ys = mset (validRecords entries)"
      "sorted_wrt (\<lambda>a b. lc (b_timestamp b) (b_timestamp a) \<le> 0) ys"
    by blast
  have "readBroadcasts entries [] = map Record (validRecords entries)"
    using readBroadcasts_acc [of entries "[]"] parsedValues_records [OF assms(2)] by simp
  with ys show ?thesis
    by (intro exI [of _ ys]) (simp add: updateLiveIndex_def)
qed

lemma updateLiveIndex_sample:
  "updateLiveIndex codeUnitCompare (Inr sampleDirectory) True
     = Inr [Record eveningShow, Record morningShow]"
  by (simp add: updateLiveIndex_def sampleDirectory_def morningShow_def eveningShow_def js_def)


section \<open>Properties of the merge operation\<close>

text \<open>
  C10. Called with no chunks, \<open>mergeBroadcast\<close> returns \<open>null\<close> and makes no call on the
  host: no directory is created, no file is written, no chunk file is deleted.
\<close>

theorem C10_mergeBroadcast_empty:
  "mergeBroadcast h [] liveDir = ([], Inr None)"
  by (simp add: mergeBroadcast_def)

section \<open>Properties of the assembler\<close>

subsection \<open>What a merge reads\<close>




lemma mergeBroadcast_sample:
  "mergeBroadcast sampleMerger [firstChunk, secondChunk] (js ''data/live'') =
     ([Mkdir (js ''data/live/2024-05-01T06-00-00-000Z''),
       WriteList (js ''data/live/2024-05-01T06-00-00-000Z/audio.mp3.txt'')
         [js ''c1.mp3'', js ''c2.mp3''],
       FfmpegConcat [js ''c1.mp3'', js ''c2.mp3'']
         (js ''data/live/2024-05-01T06-00-00-000Z/audio.mp3''),
       Unlink (js ''data/live/2024-05-01T06-00-00-000Z/audio.mp3.txt''),
       TranscribeAudio (js ''data/live/2024-05-01T06-00-00-000Z/audio.mp3''),
       WriteBroadcast (js ''data/live/2024-05-01T06-00-00-000Z/broadcast.json'')
         sampleBroadcast,
       Unlink (js ''c1.mp3''), Unlink (js ''c2.mp3'')],
      Inr (Some sampleBroadcast))"
  by (simp add: mergeBroadcast_def mergeAudioFiles_def Let_def sampleMerger_def firstChunk_def
      secondChunk_def sampleBroadcast_def pathJoin_def replaceColonDot_def js_def
      transcribeAudio_def sampleHost_def MAX_FILE_SIZE_def directSegment_def
      secondAnswer_def mathRound_def trim_def isWhiteSpace_def
      generateTitle_def splitWhiteSpace_def slice0_def)

subsection \<open>Runs without chunks\<close>

lemma quiet_step:
  "pendingChunks s = [] \<Longrightarrow> \<not> isChunkEvent e \<Longrightarrow>
     pendingChunks (step h liveDir s e) = [] \<and> merges (step h liveDir s e) = merges s"
  by (cases e) (auto simp: idleFlush_def settle_def Let_def)

lemma quiet_run:
  "pendingChunks s = [] \<Longrightarrow> \<forall>e \<in> set es. \<not> isChunkEvent e \<Longrightarrow>
     pendingChunks (run h liveDir es s) = [] \<and> merges (run h liveDir es s) = merges s"
proof (induction es arbitrary: s)
  case Nil
  then show ?case by (simp add: run_def)
next
  case (Cons e es)
  from Cons.prems have q: "pendingChunks (step h liveDir s e) = []"
      "merges (step h liveDir s e) = merges s"
    using quiet_step [of s e h liveDir] by auto
  from Cons.IH [OF q(1)] Cons.prems(2) q(2) show ?case
    by (simp add: run_def)
qed



subsection \<open>At most one run in flight\<close>

lemma exclusive_initial: "exclusive initial"
  by (simp add: exclusive_def initial_def)

lemma exclusive_processCompletedChunk:
  "exclusive s \<Longrightarrow> exclusive (processCompletedChunk b f t s)"
  by (auto simp: exclusive_def processCompletedChunk_def Let_def)

lemma exclusive_idleFlush: "exclusive s \<Longrightarrow> exclusive (idleFlush now s)"
  by (auto simp: exclusive_def idleFlush_def Let_def)

lemma exclusive_settle: "exclusive s \<Longrightarrow> exclusive (settle h liveDir k s)"
  by (auto simp: exclusive_def settle_def Let_def)

lemma exclusive_step: "exclusive s \<Longrightarrow> exclusive (step h liveDir s e)"
  by (cases e)
     (simp_all add: exclusive_processCompletedChunk exclusive_idleFlush exclusive_settle)

lemma exclusive_run: "exclusive s \<Longrightarrow> exclusive (run h liveDir es s)"
  by (induction es arbitrary: s) (simp_all add: run_def exclusive_step)

lemma busy_no_merge: "isProcessing s \<Longrightarrow> merges (step h liveDir s e) = merges s"
  by (cases e) (auto simp: processCompletedChunk_def idleFlush_def settle_def Let_def)

subsection \<open>Speech, speech, music\<close>





text \<open>
  C2. In every state the assembler reaches from its initial state, under any schedule
  of chunk arrivals, flush ticks and settlings, at most one run of the merge is in
  flight; and while the flag is set, no event starts a merge: the list of merges stays as
  it is and still at most one run is in flight.
\<close>

theorem C2_at_most_one_merge:
  "length (inFlight (run h liveDir es initial)) \<le> 1
   \<and> (isProcessing (run h liveDir es initial) \<longrightarrow>
        merges (step h liveDir (run h liveDir es initial) e) = merges (run h liveDir es initial)
        \<and> length (inFlight (step h liveDir (run h liveDir es initial) e)) \<le> 1)"
proof -
  have r: "exclusive (run h liveDir es initial)"
    by (rule exclusive_run [OF exclusive_initial])
  from exclusive_step [OF r, of h liveDir e] r show ?thesis
    by (simp add: exclusive_def busy_no_merge)
qed

lemma busy_sample:
  "run sampleMerger (js ''data/live'')
     (sampleArrivals @ [ChunkCompleted laterBuffer (js ''c4.mp3'') 360000]) initial
   = \<lparr>pendingChunks =
        [\<lparr>c_file = js ''c4.mp3'', startTime = 360000, duration = 120000, hasSpeech = True\<rparr>],
      isProcessing = True,
      inFlight = [\<lparr>chunksToMerge = [firstChunk, secondChunk], musicChunk = Some thirdChunkFile\<rparr>],
      merges = [[firstChunk, secondChunk]], hostCalls = []\<rparr>"
  by (simp add: run_def sampleArrivals_def processCompletedChunk_def initial_def
      CHUNK_DURATION_SECS_def chunkHasSpeech_def sampleBuffer_def laterBuffer_def inRange_def
      noArtist_def firstChunk_def secondChunk_def js_def)

text \<open>
  The theorem at the sample run followed by a fourth, speech chunk: the merge of the first
  two is in flight and a chunk is pending; neither a music chunk nor a flush tick long
  after starts a second merge.
\<close>

theorem C2_at_most_one_merge_witness:
  "isProcessing (run sampleMerger (js ''data/live'')
       (sampleArrivals @ [ChunkCompleted laterBuffer (js ''c4.mp3'') 360000]) initial)
   \<and> pendingChunks (run sampleMerger (js ''data/live'')
       (sampleArrivals @ [ChunkCompleted laterBuffer (js ''c4.mp3'') 360000]) initial) \<noteq> []
   \<and> length (inFlight (run sampleMerger (js ''data/live'')
       (sampleArrivals @ [ChunkCompleted laterBuffer (js ''c4.mp3'') 360000]) initial)) = 1
   \<and> merges (step sampleMerger (js ''data/live'')
         (run sampleMerger (js ''data/live'')
            (sampleArrivals @ [ChunkCompleted laterBuffer (js ''c4.mp3'') 360000]) initial)
         (ChunkCompleted sampleBuffer (js ''c5.mp3'') 480000))
       = [[firstChunk, secondChunk]]
   \<and> merges (step sampleMerger (js ''data/live'')
         (run sampleMerger (js ''data/live'')
            (sampleArrivals @ [ChunkCompleted laterBuffer (js ''c4.mp3'') 360000]) initial)
         (IdleCheck 900000))
       = [[firstChunk, secondChunk]]"
proof -
  let ?es = "sampleArrivals @ [ChunkCompleted laterBuffer (js ''c4.mp3'') 360000]"
  let ?s = "run sampleMerger (js ''data/live'') ?es initial"
  have b: "isProcessing ?s" "pendingChunks ?s \<noteq> []" "length (inFlight ?s) = 1"
      "merges ?s = [[firstChunk, secondChunk]]"
    by (simp_all add: busy_sample)
  from C2_at_most_one_merge [of sampleMerger "js ''data/live''" ?es
      "ChunkCompleted sampleBuffer (js ''c5.mp3'') 480000"] b
  have 1: "merges (step sampleMerger (js ''data/live'') ?s
      (ChunkCompleted sampleBuffer (js ''c5.mp3'') 480000)) = [[firstChunk, secondChunk]]"
    by simp
  from C2_at_most_one_merge [of sampleMerger "js ''data/live''" ?es "IdleCheck 900000"] b
  have 2: "merges (step sampleMerger (js ''data/live'') ?s (IdleCheck 900000))
      = [[firstChunk, secondChunk]]"
    by simp
  from b 1 2 show ?thesis by simp
qed

subsection \<open>The idle flush\<close>

text \<open>
  C3. Chunks are pending, no merge is in progress, and the flush callback runs more than
  five minutes (300000 ms) after the nominal end of the last pending chunk. Then it
  starts one merge, whose input is all the pending chunks, and empties the queue; as
  long as no further chunk arrives, no later event starts another merge; and a music
  chunk arriving in the same state instead would start a merge with the same input,
  which produces the same broadcast.
\<close>

theorem C3_idle_flush:
  assumes "pendingChunks s \<noteq> []" and "\<not> isProcessing s"
    and "now - (startTime (last (pendingChunks s)) + 120000) > 300000"
  shows "pendingChunks (idleFlush now s) = []
    \<and> merges (idleFlush now s) = merges s @ [pendingChunks s]
    \<and> inFlight (idleFlush now s)
        = inFlight s @ [\<lparr>chunksToMerge = pendingChunks s, musicChunk = None\<rparr>]
    \<and> ((\<forall>e \<in> set es. \<not> isChunkEvent e) \<longrightarrow>
         merges (run h liveDir es (idleFlush now s)) = merges s @ [pendingChunks s])
    \<and> (\<not> chunkHasSpeech b t (t + 120000) \<longrightarrow>
         merges (processCompletedChunk b f t s) = merges (idleFlush now s)
         \<and> map chunksToMerge (inFlight (processCompletedChunk b f t s))
            = map chunksToMerge (inFlight (idleFlush now s))
         \<and> map (broadcastOf h liveDir) (inFlight (processCompletedChunk b f t s))
            = map (broadcastOf h liveDir) (inFlight (idleFlush now s)))"
proof -
  have l: "pendingChunks s ! (length (pendingChunks s) - Suc 0) = last (pendingChunks s)"
    using assms(1) by (simp add: last_conv_nth)
  have i: "idleFlush now s = s\<lparr>isProcessing := True, pendingChunks := [],
      inFlight := inFlight s @ [\<lparr>chunksToMerge = pendingChunks s, musicChunk = None\<rparr>],
      merges := merges s @ [pendingChunks s]\<rparr>"
    using assms by (simp add: idleFlush_def Let_def l CHUNK_DURATION_SECS_def)
  have q: "(\<forall>e \<in> set es. \<not> isChunkEvent e) \<longrightarrow>
         merges (run h liveDir es (idleFlush now s)) = merges s @ [pendingChunks s]"
    using quiet_run [of "idleFlush now s" es h liveDir] by (simp add: i)
  have m: "\<not> chunkHasSpeech b t (t + 120000) \<longrightarrow>
     processCompletedChunk b f t s = s\<lparr>isProcessing := True, pendingChunks := [],
      inFlight := inFlight s @ [\<lparr>chunksToMerge = pendingChunks s, musicChunk = Some f\<rparr>],
      merges := merges s @ [pendingChunks s]\<rparr>"
    using assms by (simp add: processCompletedChunk_def Let_def CHUNK_DURATION_SECS_def)
  show ?thesis
    using q m by (simp add: i broadcastOf_def)
qed

lemma twoPending_eq:
  "twoPending = \<lparr>pendingChunks = [firstChunk, secondChunk], isProcessing = False, inFlight = [],
      merges = [], hostCalls = []\<rparr>"
  by (simp add: twoPending_def run_def sampleArrivals_def processCompletedChunk_def initial_def
      CHUNK_DURATION_SECS_def chunkHasSpeech_def sampleBuffer_def inRange_def
      noArtist_def firstChunk_def secondChunk_def js_def)

text \<open>
  The theorem at the state with the two sample chunks pending and a flush at instant
  600000: one merge of both, and the broadcast of the sample host on either path.
\<close>

theorem C3_idle_flush_witness:
  "pendingChunks twoPending = [firstChunk, secondChunk]
   \<and> \<not> isProcessing twoPending
   \<and> 600000 - (startTime (last (pendingChunks twoPending)) + 120000) > 300000
   \<and> merges (idleFlush 600000 twoPending) = [[firstChunk, secondChunk]]
   \<and> merges (run sampleMerger (js ''data/live'') [IdleCheck 660000, Settled 0, IdleCheck 720000]
         (idleFlush 600000 twoPending)) = [[firstChunk, secondChunk]]
   \<and> \<not> chunkHasSpeech sampleBuffer 240000 (240000 + 120000)
   \<and> map (broadcastOf sampleMerger (js ''data/live''))
         (inFlight (processCompletedChunk sampleBuffer thirdChunkFile 240000 twoPending))
       = [Inr (Some sampleBroadcast)]
   \<and> map (broadcastOf sampleMerger (js ''data/live'')) (inFlight (idleFlush 600000 twoPending))
       = [Inr (Some sampleBroadcast)]"
proof -
  have a: "pendingChunks twoPending \<noteq> []" "\<not> isProcessing twoPending"
      "600000 - (startTime (last (pendingChunks twoPending)) + 120000) > 300000"
    by (simp_all add: twoPending_eq secondChunk_def)
  have n: "\<forall>e \<in> set [IdleCheck 660000, Settled 0, IdleCheck 720000]. \<not> isChunkEvent e"
    by simp
  have c: "\<not> chunkHasSpeech sampleBuffer 240000 (240000 + 120000)"
    by (simp add: chunkHasSpeech_def sampleBuffer_def inRange_def noArtist_def js_def)
  note inst = C3_idle_flush [OF a, of "[IdleCheck 660000, Settled 0, IdleCheck 720000]"
      sampleMerger "js ''data/live''" sampleBuffer 240000 thirdChunkFile]
  have i: "map (broadcastOf sampleMerger (js ''data/live'')) (inFlight (idleFlush 600000 twoPending))
       = [Inr (Some sampleBroadcast)]"
    using inst by (simp add: twoPending_eq broadcastOf_def mergeBroadcast_sample)
  from inst n c i a show ?thesis
    by (simp add: twoPending_eq)
qed

section \<open>Properties of the watchdog\<close>

lemma runRecorder_snoc: "runRecorder (es @ [e]) r = recorderStep (runRecorder es r) e"
  by (simp add: runRecorder_def)

lemma lastActivity_snoc: "lastActivity t0 (es @ [e]) = activityAt (lastActivity t0 es) e"
  by (simp add: lastActivity_def)

lemma lastSegmentOpened_snoc: "lastSegmentOpened (es @ [e]) = observedAt (lastSegmentOpened es) e"
  by (simp add: lastSegmentOpened_def)

lemma lastChunkTime_run:
  "lastChunkTime (runRecorder es (recorderAt t0)) = lastActivity t0 es"
proof (induction es rule: rev_induct)
  case Nil
  show ?case by (simp add: runRecorder_def lastActivity_def recorderAt_def)
next
  case (snoc e es)
  then show ?case
    by (cases e)
       (simp_all add: runRecorder_snoc lastActivity_snoc startRecording_def segmentOpened_def
          processGone_def watchdog_def Let_def)
qed

lemma lastActivity_in_instants:
  "lastActivity t0 es \<in> set (t0 # instants es)"
proof (induction es rule: rev_induct)
  case Nil
  show ?case by (simp add: lastActivity_def)
next
  case (snoc e es)
  then show ?case
    by (cases e) (auto simp: lastActivity_snoc instants_def)
qed

lemma observed_before_activity:
  "sorted (t0 # instants es) \<Longrightarrow> lastSegmentOpened es = Some t \<Longrightarrow> t \<le> lastActivity t0 es"
proof (induction es arbitrary: t rule: rev_induct)
  case Nil
  then show ?case by (simp add: lastSegmentOpened_def)
next
  case (snoc e es)
  from snoc.prems(1) have s: "sorted (t0 # instants es)"
    by (simp add: instants_def sorted_append)
  show ?case
  proof (cases e)
    case (StartRecording u)
    with snoc.prems have o: "lastSegmentOpened es = Some t"
      by (simp add: lastSegmentOpened_snoc)
    from snoc.IH [OF s o] have "t \<le> lastActivity t0 es" .
    moreover from snoc.prems(1) StartRecording lastActivity_in_instants [of t0 es]
    have "lastActivity t0 es \<le> u"
      by (auto simp: instants_def sorted_append)
    ultimately show ?thesis using StartRecording by (simp add: lastActivity_snoc)
  next
    case (SegmentOpened u)
    with snoc.prems show ?thesis
      by (simp add: lastSegmentOpened_snoc lastActivity_snoc)
  next
    case ProcessExit
    with snoc.prems snoc.IH [OF s] show ?thesis
      by (simp add: lastSegmentOpened_snoc lastActivity_snoc)
  next
    case ProcessError
    with snoc.prems snoc.IH [OF s] show ?thesis
      by (simp add: lastSegmentOpened_snoc lastActivity_snoc)
  next
    case (WatchdogCheck u)
    with snoc.prems snoc.IH [OF s] show ?thesis
      by (simp add: lastSegmentOpened_snoc lastActivity_snoc)
  qed
qed

lemma watchdogKills_iff:
  "watchdogKills now r \<longleftrightarrow> ffmpegProcess r \<noteq> None \<and> now - lastChunkTime r > 300000"
  by (auto simp: watchdogKills_def watchdog_def Let_def)

text \<open>
  C7, as the code has it. The watchdog measures the stall from \<open>lastChunkTime\<close>, which
  is set when a new chunk is observed and also when the recording is (re)started. After
  any run of events, a check at the instant \<open>now\<close> kills exactly when a process is running
  and the last observation of a chunk or start of the recording is more than five
  minutes old; with a clock that does not run backwards it never kills when a chunk was
  observed within the last five minutes; and what it kills is the running process.
\<close>

theorem C7_watchdog_kills_stalled:
  "(watchdogKills now (runRecorder es (recorderAt t0)) \<longleftrightarrow>
      ffmpegProcess (runRecorder es (recorderAt t0)) \<noteq> None \<and> now - lastActivity t0 es > 300000)
   \<and> (sorted (t0 # instants es) \<and> lastSegmentOpened es = Some t \<and> now - t \<le> 300000
        \<longrightarrow> \<not> watchdogKills now (runRecorder es (recorderAt t0)))
   \<and> (watchdogKills now (runRecorder es (recorderAt t0)) \<longrightarrow>
        (\<exists>p. ffmpegProcess (runRecorder es (recorderAt t0)) = Some p
           \<and> killed (watchdog now (runRecorder es (recorderAt t0)))
              = killed (runRecorder es (recorderAt t0)) @ [p]))"
proof (intro conjI impI)
  show k: "watchdogKills now (runRecorder es (recorderAt t0)) \<longleftrightarrow>
      ffmpegProcess (runRecorder es (recorderAt t0)) \<noteq> None \<and> now - lastActivity t0 es > 300000"
    by (simp add: watchdogKills_iff lastChunkTime_run)
  show "\<not> watchdogKills now (runRecorder es (recorderAt t0))"
    if "sorted (t0 # instants es) \<and> lastSegmentOpened es = Some t \<and> now - t \<le> 300000"
  proof -
    from that observed_before_activity [of t0 es t] have "t \<le> lastActivity t0 es" by blast
    with that show ?thesis by (simp add: k)
  qed
  show "\<exists>p. ffmpegProcess (runRecorder es (recorderAt t0)) = Some p
           \<and> killed (watchdog now (runRecorder es (recorderAt t0)))
              = killed (runRecorder es (recorderAt t0)) @ [p]"
    if "watchdogKills now (runRecorder es (recorderAt t0))"
    using that by (auto simp: watchdogKills_def watchdog_def Let_def split: if_splits)
qed

text \<open>
  C7 as stated fails: a chunk is observed at instant 1000, the process exits and the
  recording is restarted at instant 245000. At the check at instant 360000 no chunk has
  been observed for more than five minutes and a process is running, and the watchdog
  does not kill it.
\<close>

theorem C7_watchdog_restart_counterexample:
  "lastSegmentOpened [StartRecording 0, SegmentOpened 1000, ProcessExit, StartRecording 245000] = Some 1000
   \<and> (360000::int) - 1000 > 5 * 60 * 1000
   \<and> ffmpegProcess (runRecorder [StartRecording 0, SegmentOpened 1000, ProcessExit, StartRecording 245000] (recorderAt 0)) = Some 1
   \<and> \<not> watchdogKills 360000 (runRecorder [StartRecording 0, SegmentOpened 1000, ProcessExit, StartRecording 245000] (recorderAt 0))"
  by (simp add: lastSegmentOpened_def runRecorder_def recorderAt_def startRecording_def segmentOpened_def processGone_def
      watchdogKills_def watchdog_def)

text \<open>
  The theorem at a recording started at instant 0 with a chunk observed at instant 1000:
  the check at 302000 kills process 0, the check at 200000 does not.
\<close>

theorem C7_watchdog_kills_stalled_witness:
  "watchdogKills 302000 (runRecorder [StartRecording 0, SegmentOpened 1000] (recorderAt 0))
   \<and> ffmpegProcess (runRecorder [StartRecording 0, SegmentOpened 1000] (recorderAt 0)) = Some 0
   \<and> killed (watchdog 302000 (runRecorder [StartRecording 0, SegmentOpened 1000] (recorderAt 0))) = [0]
   \<and> sorted (0 # instants [StartRecording 0, SegmentOpened 1000])
   \<and> lastSegmentOpened [StartRecording 0, SegmentOpened 1000] = Some 1000
   \<and> (200000::int) - 1000 \<le> 300000
   \<and> \<not> watchdogKills 200000 (runRecorder [StartRecording 0, SegmentOpened 1000] (recorderAt 0))"
proof -
  let ?es = "[StartRecording 0, SegmentOpened 1000]"
  have p: "ffmpegProcess (runRecorder ?es (recorderAt 0)) = Some 0"
    by (simp add: runRecorder_def recorderAt_def startRecording_def segmentOpened_def)
  have a: "lastActivity 0 ?es = 1000" by (simp add: lastActivity_def)
  have kk: "killed (runRecorder ?es (recorderAt 0)) = []"
    by (simp add: runRecorder_def recorderAt_def startRecording_def segmentOpened_def)
  have s: "sorted (0 # instants ?es)" by (simp add: instants_def)
  have o: "lastSegmentOpened ?es = Some 1000" by (simp add: lastSegmentOpened_def)
  from C7_watchdog_kills_stalled [of 302000 ?es 0 1000] p a kk
  have 1: "watchdogKills 302000 (runRecorder ?es (recorderAt 0))
     \<and> killed (watchdog 302000 (runRecorder ?es (recorderAt 0))) = [0]" by simp
  have le: "(200000::int) - 1000 \<le> 300000" by simp
  from C7_watchdog_kills_stalled [of 200000 ?es 0 1000] s o le
  have 2: "\<not> watchdogKills 200000 (runRecorder ?es (recorderAt 0))" by blast
  from 1 2 p s o show ?thesis by simp
qed

end
